theory Spec2Isabelle
  imports Main
begin

section \<open>Log playback (src/systems/log/LogPlayback.cc)\<close>

text \<open>
  A shallow embedding of the \<^verbatim>\<open>LogPlayback\<close> system: the private data of a playback
  instance, \<^verbatim>\<open>Configure\<close>, \<^verbatim>\<open>Start\<close>, the resource URI rewriting
  (\<^verbatim>\<open>PrependLogPath\<close>, \<^verbatim>\<open>ReplaceResourceURIs\<close>) and \<^verbatim>\<open>Update\<close>.
  Mutation is explicit state passing: every function takes the objects it touches and
  returns them updated.
\<close>

subsection \<open>Data model\<close>

text \<open>
  \<^verbatim>\<open>Entity\<close> is a \<^verbatim>\<open>uint64_t\<close> identifier; the system only compares and stores
  identifiers, it never computes with them. \<^verbatim>\<open>kNullEntity\<close> is 0.
\<close>

type_synonym Entity = nat

definition kNullEntity :: Entity where
  "kNullEntity = 0"

text \<open>A \<^verbatim>\<open>std::chrono::steady_clock::duration\<close>: a signed count of nanoseconds.\<close>

type_synonym duration = int

text \<open>
  \<^verbatim>\<open>sdf::Geometry\<close>, as far as the system reads it: the geometry type is
  \<^verbatim>\<open>MESH\<close> (with the URI of the mesh shape) or something else.
\<close>

datatype sdfGeometry = MESH string | NON_MESH

datatype ComponentTypeId =
    GeometryT | MaterialT | ParticleEmitterCmdT | WorldT | LogPlaybackStatisticsT
  | OtherT nat

datatype ComponentState = NoChange | PeriodicChange | OneTimeChange

text \<open>
  The components the system reads or writes: \<^verbatim>\<open>components::Geometry\<close>,
  \<^verbatim>\<open>components::Material\<close> (its script URI), \<^verbatim>\<open>components::ParticleEmitterCmd\<close>
  (the \<^verbatim>\<open>emitting\<close> flag of the message), \<^verbatim>\<open>components::World\<close>,
  \<^verbatim>\<open>components::LogPlaybackStatistics\<close> (start and end time of the log), and any other
  component (its type and an opaque payload).
\<close>

datatype Component =
    Geometry sdfGeometry
  | Material string
  | ParticleEmitterCmd bool
  | World
  | LogPlaybackStatistics duration duration
  | OtherComponent nat nat

fun typeId :: "Component \<Rightarrow> ComponentTypeId" where
  "typeId (Geometry _) = GeometryT"
| "typeId (Material _) = MaterialT"
| "typeId (ParticleEmitterCmd _) = ParticleEmitterCmdT"
| "typeId World = WorldT"
| "typeId (LogPlaybackStatistics _ _) = LogPlaybackStatisticsT"
| "typeId (OtherComponent t _) = OtherT t"

text \<open>
  The entity of a serialized state message (\<^verbatim>\<open>msgs::SerializedEntity\<close> and
  \<^verbatim>\<open>msgs::SerializedEntityMap\<close>): \<^verbatim>\<open>id()\<close>, \<^verbatim>\<open>remove()\<close> and the components
  that changed.
\<close>

record SerializedEntity =
  msg_id :: Entity
  msg_remove :: bool
  msg_components :: "Component list"

text \<open>
  A message of the log (\<^verbatim>\<open>transport::log::Message\<close>): \<^verbatim>\<open>Type()\<close>, and
  \<^verbatim>\<open>Data()\<close> as \<^verbatim>\<open>ParseFromString\<close> reads it, the entities of the state in the
  order \<^verbatim>\<open>msg.entities()\<close> iterates them.
\<close>

record Message =
  Type :: string
  Data :: "SerializedEntity list"

text \<open>
  The log (\<^verbatim>\<open>transport::log::Log\<close>, an external library) as the system observes it:
  \<^verbatim>\<open>QueryMessages()\<close> (all messages), \<^verbatim>\<open>QueryMessages(AllTopics({start, end}))\<close>,
  \<^verbatim>\<open>StartTime()\<close> and \<^verbatim>\<open>EndTime()\<close>.
\<close>

record Log =
  AllMessages :: "Message list"
  QueryMessages :: "duration \<Rightarrow> duration \<Rightarrow> Message list"
  StartTime :: duration
  EndTime :: duration

text \<open>
  What the system calls outside this repository: \<^verbatim>\<open>gz::common\<close>'s file system
  functions, \<^verbatim>\<open>fuel_tools::Zip::Extract\<close>, and the opening of a log file
  (\<^verbatim>\<open>Log::Open\<close>: whether it succeeded, and the log as it answers afterwards).
  \<^verbatim>\<open>exists\<close> answers for the file system as it is once a compressed log has been
  extracted; the file system is taken not to change afterwards.
\<close>

record Env =
  joinPaths :: "string \<Rightarrow> string \<Rightarrow> string"
  exists :: "string \<Rightarrow> bool"
  isFile :: "string \<Rightarrow> bool"
  absPath :: "string \<Rightarrow> string"
  basename :: "string \<Rightarrow> string"
  lowercase :: "string \<Rightarrow> string"
  uniqueDirectoryPath :: "string \<Rightarrow> string"
  Extract :: "string \<Rightarrow> string \<Rightarrow> bool"
  Open :: "string \<Rightarrow> bool \<times> Log"

text \<open>
  \<^verbatim>\<open>LogPlaybackPrivate\<close>. The static member \<^verbatim>\<open>started\<close> is process-wide and is
  passed beside the instance; the event manager the pointer \<^verbatim>\<open>eventManager\<close> refers to
  is passed to \<^verbatim>\<open>Update\<close> as the list of the \<^verbatim>\<open>events::Pause\<close> values emitted so far.
\<close>

record LogPlaybackPrivate =
  batch :: "Message list"
  log :: "Log option"
  logPath :: string
  extDest :: string
  instStarted :: bool
  printedEnd :: bool
  doReplaceResourceURIs :: bool
  prevParticleEmitterCmds :: "Entity \<rightharpoonup> bool"

type_synonym EventManager = "bool list"

text \<open>The state of a \<^verbatim>\<open>LogPlaybackPrivate\<close> after the constructor.\<close>

definition newLogPlaybackPrivate :: LogPlaybackPrivate where
  "newLogPlaybackPrivate =
     \<lparr>batch = [], log = None, logPath = [], extDest = [], instStarted = False,
      printedEnd = False, doReplaceResourceURIs = True,
      prevParticleEmitterCmds = Map.empty\<rparr>"

subsection \<open>The entity component manager\<close>

text \<open>
  The \<^verbatim>\<open>EntityComponentManager\<close> is defined elsewhere in the repository; the system
  only calls it. Its state, as far as those calls go, holds the entities
  (\<^verbatim>\<open>Entities().Vertices()\<close>), the components in the order \<^verbatim>\<open>Each\<close> visits them,
  the entities whose removal has been requested, the \<^verbatim>\<open>SetChanged\<close> calls received,
  and the entity creation offset.
\<close>

record EntityComponentManager =
  Entities :: "Entity list"
  Components :: "(Entity \<times> Component) list"
  RemoveRequests :: "Entity set"
  Changed :: "(Entity \<times> ComponentTypeId \<times> ComponentState) list"
  EntityCreateOffset :: int

text \<open>
  Modelled from the spec: \<^verbatim>\<open>EntityComponentManager::RequestRemoveEntity\<close> is missing.
  The removal of an entity is scheduled (deferred, not immediate).
\<close>

definition RequestRemoveEntity :: "Entity \<Rightarrow> EntityComponentManager \<Rightarrow> EntityComponentManager" where
  "RequestRemoveEntity e ecm = ecm\<lparr>RemoveRequests := insert e (RemoveRequests ecm)\<rparr>"

text \<open>
  Modelled from the spec: \<^verbatim>\<open>EntityComponentManager::SetChanged\<close> is missing. A per-entity
  mark-changed operation taking a one-shot or continuous classification; each call is
  one change notification.
\<close>

definition SetChanged ::
  "Entity \<Rightarrow> ComponentTypeId \<Rightarrow> ComponentState \<Rightarrow> EntityComponentManager \<Rightarrow> EntityComponentManager" where
  "SetChanged e t c ecm = ecm\<lparr>Changed := Changed ecm @ [(e, t, c)]\<rparr>"

text \<open>
  Modelled from the spec: \<^verbatim>\<open>EntityComponentManager::CreateComponent\<close> and the write
  through \<^verbatim>\<open>Component\<close> are missing. If a component of that type already exists on the
  entity its value is replaced, otherwise it is created.
\<close>

fun setComponent :: "Entity \<Rightarrow> Component \<Rightarrow> (Entity \<times> Component) list \<Rightarrow> (Entity \<times> Component) list" where
  "setComponent e c [] = [(e, c)]"
| "setComponent e c ((e', c') # cs) =
     (if e' = e \<and> typeId c' = typeId c then (e, c) # cs
      else (e', c') # setComponent e c cs)"

fun setComponents :: "Entity \<Rightarrow> Component list \<Rightarrow> (Entity \<times> Component) list \<Rightarrow> (Entity \<times> Component) list" where
  "setComponents e [] cs = cs"
| "setComponents e (c # rest) cs = setComponents e rest (setComponent e c cs)"

text \<open>
  Modelled from the spec: \<^verbatim>\<open>EntityComponentManager::SetState\<close> is missing. For each
  record of the message: if the record is a removal, the entity is scheduled for removal
  and the component writes are skipped; otherwise the entity is created if it does not
  exist yet, and each component of the record replaces the one of its type on the entity,
  or is created.
\<close>

fun SetState :: "SerializedEntity list \<Rightarrow> EntityComponentManager \<Rightarrow> EntityComponentManager" where
  "SetState [] ecm = ecm"
| "SetState (r # rs) ecm =
     SetState rs
       (if msg_remove r then RequestRemoveEntity (msg_id r) ecm
        else ecm\<lparr>Entities :=
                    (if msg_id r \<in> set (Entities ecm) then Entities ecm
                     else Entities ecm @ [msg_id r]),
                  Components := setComponents (msg_id r) (msg_components r) (Components ecm)\<rparr>)"

text \<open>
  Modelled from the spec: \<^verbatim>\<open>Component::SetData\<close> with an equality function is missing.
  The payload is replaced unless the equality function says the new one is the same.
\<close>

definition SetData :: "'a \<Rightarrow> 'a \<Rightarrow> ('a \<Rightarrow> 'a \<Rightarrow> bool) \<Rightarrow> 'a" where
  "SetData old new eq = (if eq old new then old else new)"

text \<open>
  Modelled from the spec: \<^verbatim>\<open>EntityComponentManager::EntityByComponents\<close> is missing. The
  first entity holding the given component, \<^verbatim>\<open>kNullEntity\<close> when there is none.
\<close>

definition EntityByComponents :: "Component \<Rightarrow> EntityComponentManager \<Rightarrow> Entity" where
  "EntityByComponents c ecm =
     (case find (\<lambda>(e, c'). c' = c) (Components ecm) of
        None \<Rightarrow> kNullEntity
      | Some (e, _) \<Rightarrow> e)"

subsection \<open>Parse\<close>

text \<open>Both overloads of \<^verbatim>\<open>LogPlaybackPrivate::Parse\<close> hand the message to \<^verbatim>\<open>SetState\<close>.\<close>

definition Parse :: "EntityComponentManager \<Rightarrow> SerializedEntity list \<Rightarrow> EntityComponentManager" where
  "Parse ecm msg = SetState msg ecm"

subsection \<open>Resource URIs\<close>

definition filePrefix :: string where
  "filePrefix = ''file://''"

text \<open>
  The test \<^verbatim>\<open>_uri[0] == '/'\<close>: on the empty string \<^verbatim>\<open>_uri[0]\<close> is the terminating
  null character.
\<close>

definition startsWithSlash :: "string \<Rightarrow> bool" where
  "startsWithSlash uri = (case uri of [] \<Rightarrow> False | c # _ \<Rightarrow> c = CHR ''/'')"

text \<open>
  The condition of \<^verbatim>\<open>PrependLogPath\<close>: the URI starts with \<^verbatim>\<open>file://\<close> and what
  follows does not start with the log path, or it starts with \<^verbatim>\<open>/\<close>.
\<close>

definition needsPrepend :: "string \<Rightarrow> string \<Rightarrow> bool" where
  "needsPrepend lp uri \<longleftrightarrow>
     (take (length filePrefix) uri = filePrefix \<and>
      take (length lp) (drop (length filePrefix) uri) \<noteq> lp)
     \<or> startsWithSlash uri"

definition pathNoPrefix :: "string \<Rightarrow> string" where
  "pathNoPrefix uri = (if startsWithSlash uri then uri else drop (length filePrefix) uri)"

definition PrependLogPath :: "Env \<Rightarrow> string \<Rightarrow> LogPlaybackPrivate \<Rightarrow> string \<times> LogPlaybackPrivate" where
  "PrependLogPath env uri d =
     (if \<not> doReplaceResourceURIs d then (uri, d)
      else if needsPrepend (logPath d) uri then
        (let pathPrepended = joinPaths env (logPath d) (pathNoPrefix uri)
         in if \<not> exists env pathPrepended
            then (uri, d\<lparr>doReplaceResourceURIs := False\<rparr>)
            else (filePrefix @ pathPrepended, d))
      else (uri, d))"

text \<open>The equality functions of \<^verbatim>\<open>ReplaceResourceURIs\<close>.\<close>

definition uriEqual :: "string \<Rightarrow> string \<Rightarrow> bool" where
  "uriEqual s1 s2 \<longleftrightarrow> s1 = s2"

fun geoUriEqual :: "sdfGeometry \<Rightarrow> sdfGeometry \<Rightarrow> bool" where
  "geoUriEqual (MESH u1) (MESH u2) = uriEqual u1 u2"
| "geoUriEqual _ _ = False"

definition matUriEqual :: "string \<Rightarrow> string \<Rightarrow> bool" where
  "matUriEqual m1 m2 \<longleftrightarrow> uriEqual m1 m2"

text \<open>
  Modelled from the spec: \<^verbatim>\<open>EntityComponentManager::Each\<close> is missing. It iterates the
  entities holding a component of a given type and hands each to the callback. Here the
  callback is handed every component in order, and leaves those of another type alone.
\<close>

fun Each ::
  "(Entity \<times> Component \<Rightarrow> 's \<Rightarrow> (Entity \<times> Component) \<times> 's) \<Rightarrow> (Entity \<times> Component) list \<Rightarrow> 's
     \<Rightarrow> (Entity \<times> Component) list \<times> 's" where
  "Each f [] s = ([], s)"
| "Each f (c # cs) s =
     (let (c', s') = f c s;
          (cs', s'') = Each f cs s'
      in (c' # cs', s''))"

text \<open>
  The callback of the first loop of \<^verbatim>\<open>ReplaceResourceURIs\<close>, over
  \<^verbatim>\<open>components::Geometry\<close>: a mesh with a non-empty URI gets the URI that
  \<^verbatim>\<open>PrependLogPath\<close> returns.
\<close>

fun replaceGeometryURI ::
  "Env \<Rightarrow> Entity \<times> Component \<Rightarrow> LogPlaybackPrivate \<Rightarrow> (Entity \<times> Component) \<times> LogPlaybackPrivate" where
  "replaceGeometryURI env (e, Geometry (MESH meshUri)) d =
     (if meshUri \<noteq> [] then
        (let (newMeshUri, d') = PrependLogPath env meshUri d
         in ((e, Geometry (SetData (MESH meshUri) (MESH newMeshUri) geoUriEqual)), d'))
      else ((e, Geometry (MESH meshUri)), d))"
| "replaceGeometryURI env c d = (c, d)"

text \<open>The callback of the second loop, over \<^verbatim>\<open>components::Material\<close>.\<close>

fun replaceMaterialURI ::
  "Env \<Rightarrow> Entity \<times> Component \<Rightarrow> LogPlaybackPrivate \<Rightarrow> (Entity \<times> Component) \<times> LogPlaybackPrivate" where
  "replaceMaterialURI env (e, Material matUri) d =
     (if matUri \<noteq> [] then
        (let (newMatUri, d') = PrependLogPath env matUri d
         in ((e, Material (SetData matUri newMatUri matUriEqual)), d'))
      else ((e, Material matUri), d))"
| "replaceMaterialURI env c d = (c, d)"

definition ReplaceResourceURIs ::
  "Env \<Rightarrow> LogPlaybackPrivate \<Rightarrow> EntityComponentManager \<Rightarrow> LogPlaybackPrivate \<times> EntityComponentManager" where
  "ReplaceResourceURIs env d ecm =
     (if \<not> doReplaceResourceURIs d then (d, ecm)
      else
        (let (cs1, d1) = Each (replaceGeometryURI env) (Components ecm) d;
             (cs2, d2) = Each (replaceMaterialURI env) cs1 d1
         in (d2, ecm\<lparr>Components := cs2\<rparr>)))"

subsection \<open>Start\<close>

text \<open>
  The loop of \<^verbatim>\<open>Start\<close> over the batch: the first \<^verbatim>\<open>SerializedState\<close> or
  \<^verbatim>\<open>SerializedStateMap\<close> message sets the initial state of the world; the messages
  before it are ignored.
\<close>

fun parseFirstState :: "Message list \<Rightarrow> EntityComponentManager \<Rightarrow> EntityComponentManager" where
  "parseFirstState [] ecm = ecm"
| "parseFirstState (m # ms) ecm =
     (if Type m = ''gz.msgs.SerializedState'' then Parse ecm (Data m)
      else if Type m = ''gz.msgs.SerializedStateMap'' then Parse ecm (Data m)
      else parseFirstState ms ecm)"

text \<open>
  \<^verbatim>\<open>LogPlaybackPrivate::Start\<close>: the value returned, the instance, the entity component
  manager and the static \<^verbatim>\<open>started\<close>. A log that fails to open is reported and then
  used as it is.
\<close>

definition Start ::
  "Env \<Rightarrow> LogPlaybackPrivate \<Rightarrow> EntityComponentManager \<Rightarrow> bool
     \<Rightarrow> bool \<times> LogPlaybackPrivate \<times> EntityComponentManager \<times> bool" where
  "Start env d ecm started =
     (if started then (True, d, ecm, started)
      else if logPath d = [] then (False, d, ecm, started)
      else
        (let dbPath = joinPaths env (logPath d) ''state.tlog''
         in if \<not> exists env dbPath then (False, d, ecm, started)
            else
              (let lg = snd (Open env dbPath);
                   d1 = d\<lparr>log := Some lg, batch := AllMessages lg\<rparr>;
                   ecm1 = parseFirstState (batch d1) ecm;
                   newLogStatComp = LogPlaybackStatistics (StartTime lg) (EndTime lg);
                   worldEntity = EntityByComponents World ecm1
               in if kNullEntity = worldEntity then (False, d1, ecm1, started)
                  else
                    (let ecm2 = ecm1\<lparr>Components :=
                                       setComponent worldEntity newLogStatComp (Components ecm1)\<rparr>;
                         (d2, ecm3) = ReplaceResourceURIs env d1 ecm2
                     in (True, d2\<lparr>instStarted := True\<rparr>, ecm3, True)))))"

subsection \<open>Configure\<close>

text \<open>\<^verbatim>\<open>std::string::find_last_of\<close> for one character; \<^verbatim>\<open>npos\<close> is \<open>None\<close>.\<close>

fun find_last_of :: "string \<Rightarrow> char \<Rightarrow> nat option" where
  "find_last_of [] c = None"
| "find_last_of (x # xs) c =
     (case find_last_of xs c of
        Some i \<Rightarrow> Some (Suc i)
      | None \<Rightarrow> if x = c then Some 0 else None)"

text \<open>
  \<^verbatim>\<open>ExtractStateAndResources\<close>. \<^verbatim>\<open>substr(0, npos)\<close> is the whole string.
\<close>

definition ExtractStateAndResources :: "Env \<Rightarrow> LogPlaybackPrivate \<Rightarrow> bool \<times> LogPlaybackPrivate" where
  "ExtractStateAndResources env d =
     (let extIdx = find_last_of (logPath d) CHR ''.'';
          noExt = (case extIdx of None \<Rightarrow> logPath d | Some i \<Rightarrow> take i (logPath d));
          d1 = d\<lparr>extDest := uniqueDirectoryPath env (noExt @ ''_extracted'')\<rparr>
      in if Extract env (logPath d1) (extDest d1)
         then (True, d1\<lparr>logPath := joinPaths env (extDest d1) (basename env noExt)\<rparr>)
         else (False, d1))"

definition MAX_I64 :: int where
  "MAX_I64 = 9223372036854775807"

text \<open>
  \<^verbatim>\<open>LogPlayback::Configure\<close>, given the \<^verbatim>\<open>playback_path\<close> of the SDF element.
  \<^verbatim>\<open>find_last_of(".") + 1\<close> wraps to 0 when there is no dot, so the extension is then the
  whole path.
\<close>

definition Configure ::
  "Env \<Rightarrow> string \<Rightarrow> LogPlaybackPrivate \<Rightarrow> EntityComponentManager \<Rightarrow> bool
     \<Rightarrow> LogPlaybackPrivate \<times> EntityComponentManager \<times> bool" where
  "Configure env playback_path d ecm started =
     (let d1 = d\<lparr>logPath := absPath env playback_path\<rparr>;
          ecm1 = ecm\<lparr>EntityCreateOffset := MAX_I64 div 2\<rparr>;
          (proceed, d2) =
            (if isFile env (logPath d1) then
               (let extension = lowercase env
                      (case find_last_of (logPath d1) CHR ''.'' of
                         None \<Rightarrow> logPath d1
                       | Some i \<Rightarrow> drop (i + 1) (logPath d1))
                in if extension \<noteq> ''zip'' then (False, d1)
                   else ExtractStateAndResources env d1)
             else (True, d1))
      in if \<not> proceed then (d2, ecm1, started)
         else if \<not> started then
           (let (r, d3, ecm3, started3) = Start env d2 ecm1 started in (d3, ecm3, started3))
         else (d2, ecm1, started))"

subsection \<open>Update\<close>

record UpdateInfo =
  simTime :: duration
  dt :: duration

text \<open>
  The start of \<^verbatim>\<open>Update\<close>: the rewind flag, the entities to remove, and the start and
  end time of the query. On a jump back in time every entity of the world is a candidate
  for removal and the query starts at zero.
\<close>

definition seekWindow ::
  "UpdateInfo \<Rightarrow> EntityComponentManager \<Rightarrow> bool \<times> Entity set \<times> duration \<times> duration" where
  "seekWindow info ecm =
     (let startTime = simTime info - dt info;
          endTime = simTime info
      in if dt info < 0 then (True, set (Entities ecm), 0, endTime)
         else (False, {}, startTime, endTime))"

text \<open>The loop over \<^verbatim>\<open>msg.entities()\<close> that updates the entities to remove.\<close>

fun updateEntitiesToRemove :: "SerializedEntity list \<Rightarrow> Entity set \<Rightarrow> Entity set" where
  "updateEntitiesToRemove [] entitiesToRemove = entitiesToRemove"
| "updateEntitiesToRemove (entIt # rest) entitiesToRemove =
     updateEntitiesToRemove rest
       (if msg_remove entIt then insert (msg_id entIt) entitiesToRemove
        else entitiesToRemove - {msg_id entIt})"

text \<open>
  The loop over the batch: each message is parsed by its type, and the resource URIs are
  replaced after every message, whatever its type.
\<close>

fun playBatch ::
  "Env \<Rightarrow> bool \<Rightarrow> Message list \<Rightarrow> Entity set \<times> LogPlaybackPrivate \<times> EntityComponentManager
     \<Rightarrow> Entity set \<times> LogPlaybackPrivate \<times> EntityComponentManager" where
  "playBatch env seekRewind [] st = st"
| "playBatch env seekRewind (m # ms) (entitiesToRemove, d, ecm) =
     (let (entitiesToRemove1, ecm1) =
            (if Type m = ''gz.msgs.SerializedState'' then
               ((if seekRewind then updateEntitiesToRemove (Data m) entitiesToRemove
                 else entitiesToRemove),
                Parse ecm (Data m))
             else if Type m = ''gz.msgs.SerializedStateMap'' then
               ((if seekRewind then updateEntitiesToRemove (Data m) entitiesToRemove
                 else entitiesToRemove),
                Parse ecm (Data m))
             else if Type m = ''gz.msgs.StringMsg'' then (entitiesToRemove, ecm)
             else (entitiesToRemove, ecm));
          (d1, ecm2) = ReplaceResourceURIs env d ecm1
      in playBatch env seekRewind ms (entitiesToRemove1, d1, ecm2))"

text \<open>
  \<^verbatim>\<open>Each<components::ParticleEmitterCmd>\<close>: the first time an entity is seen its value is
  stored; later the component is marked as changed when the value differs from the one
  stored.
\<close>

fun checkParticleEmitterCmds ::
  "(Entity \<times> Component) list \<Rightarrow> (Entity \<rightharpoonup> bool) \<times> EntityComponentManager
     \<Rightarrow> (Entity \<rightharpoonup> bool) \<times> EntityComponentManager" where
  "checkParticleEmitterCmds [] st = st"
| "checkParticleEmitterCmds ((e, ParticleEmitterCmd emitting) # cs) (prev, ecm) =
     (case prev e of
        None \<Rightarrow> checkParticleEmitterCmds cs (prev(e \<mapsto> emitting), ecm)
      | Some p \<Rightarrow>
          if p \<noteq> emitting
          then checkParticleEmitterCmds cs
                 (prev(e \<mapsto> emitting), SetChanged e ParticleEmitterCmdT OneTimeChange ecm)
          else checkParticleEmitterCmds cs (prev, ecm))"
| "checkParticleEmitterCmds (c # cs) st = checkParticleEmitterCmds cs st"

text \<open>
  The last loop: a \<^verbatim>\<open>std::set\<close> is iterated in ascending order, and the removal of each
  of its entities is requested.
\<close>

definition removeEntities :: "Entity set \<Rightarrow> EntityComponentManager \<Rightarrow> EntityComponentManager" where
  "removeEntities entitiesToRemove ecm =
     fold RequestRemoveEntity (sorted_list_of_set entitiesToRemove) ecm"

text \<open>
  \<^verbatim>\<open>LogPlayback::Update\<close>. With a started instance the log is there; were it not, the
  call through the null pointer has no result (\<open>None\<close>).
\<close>

definition Update ::
  "Env \<Rightarrow> UpdateInfo \<Rightarrow> LogPlaybackPrivate \<Rightarrow> EntityComponentManager \<Rightarrow> EventManager
     \<Rightarrow> (LogPlaybackPrivate \<times> EntityComponentManager \<times> EventManager) option" where
  "Update env info d ecm eventManager =
     (if dt info = 0 then Some (d, ecm, eventManager)
      else if \<not> instStarted d then Some (d, ecm, eventManager)
      else
        (case log d of
           None \<Rightarrow> None
         | Some lg \<Rightarrow>
             (let (seekRewind, entitiesToRemove, startTime, endTime) = seekWindow info ecm;
                  d1 = d\<lparr>batch := QueryMessages lg startTime endTime\<rparr>;
                  (entitiesToRemove1, d2, ecm1) =
                    playBatch env seekRewind (batch d1) (entitiesToRemove, d1, ecm);
                  (prev, ecm2) =
                    checkParticleEmitterCmds (Components ecm1) (prevParticleEmitterCmds d2, ecm1);
                  d3 = d2\<lparr>prevParticleEmitterCmds := prev\<rparr>;
                  ecm3 = removeEntities entitiesToRemove1 ecm2;
                  eventManager1 =
                    (if simTime info \<ge> EndTime lg then eventManager @ [True] else eventManager)
              in Some (d3, ecm3, eventManager1))))"

subsection \<open>Predicates used in the properties\<close>

text \<open>
  A property of the external \<^verbatim>\<open>joinPaths\<close>: a path joined to the log path begins with
  the log path.
\<close>

definition joinKeepsLogPath :: "Env \<Rightarrow> string \<Rightarrow> bool" where
  "joinKeepsLogPath env lp \<longleftrightarrow> (\<forall>p. take (length lp) (joinPaths env lp p) = lp)"

text \<open>
  Components whose URI \<^verbatim>\<open>PrependLogPath\<close> leaves alone: a mesh geometry, and a
  material, whose URI does not need the log path prepended.
\<close>

fun geoStable :: "string \<Rightarrow> Entity \<times> Component \<Rightarrow> bool" where
  "geoStable lp (e, Geometry (MESH u)) = (\<not> needsPrepend lp u)"
| "geoStable lp c = True"

fun matStable :: "string \<Rightarrow> Entity \<times> Component \<Rightarrow> bool" where
  "matStable lp (e, Material u) = (\<not> needsPrepend lp u)"
| "matStable lp c = True"

text \<open>
  The state messages of a batch are those \<^verbatim>\<open>Update\<close> parses; their records, in the order
  of the batch, are the diff records of the window. The last mention of an entity is the
  last record that carries its identifier.
\<close>

definition isStateMsg :: "Message \<Rightarrow> bool" where
  "isStateMsg m \<longleftrightarrow>
     Type m = ''gz.msgs.SerializedState'' \<or> Type m = ''gz.msgs.SerializedStateMap''"

definition stateRecords :: "Message list \<Rightarrow> SerializedEntity list" where
  "stateRecords ms = concat (map Data (filter isStateMsg ms))"


text \<open>
  The particle emitter commands of a list of components, in the order \<^verbatim>\<open>Each\<close> visits
  them: the entity and the value of \<^verbatim>\<open>emitting\<close>.
\<close>

fun emitterCmds :: "(Entity \<times> Component) list \<Rightarrow> (Entity \<times> bool) list" where
  "emitterCmds [] = []"
| "emitterCmds ((e, ParticleEmitterCmd emitting) # cs) = (e, emitting) # emitterCmds cs"
| "emitterCmds (c # cs) = emitterCmds cs"


definition componentKey :: "Entity \<times> Component \<Rightarrow> Entity \<times> ComponentTypeId" where
  "componentKey ec = (fst ec, typeId (snd ec))"

text \<open>
  The URI that \<^verbatim>\<open>PrependLogPath\<close> returns for a URI whose resource is found under the
  log path, and the components with their URIs so rewritten. The resource of a URI is
  found when the URI needs no prefix or its joined path exists.
\<close>

definition prependedUri :: "Env \<Rightarrow> string \<Rightarrow> string \<Rightarrow> string" where
  "prependedUri env lp uri =
     (if needsPrepend lp uri then filePrefix @ joinPaths env lp (pathNoPrefix uri) else uri)"


fun prependedComponent :: "Env \<Rightarrow> string \<Rightarrow> Entity \<times> Component \<Rightarrow> Entity \<times> Component" where
  "prependedComponent env lp (e, Geometry (MESH u)) = (e, Geometry (MESH (prependedUri env lp u)))"
| "prependedComponent env lp (e, Material u) = (e, Material (prependedUri env lp u))"
| "prependedComponent env lp c = c"


subsection \<open>An example environment\<close>

text \<open>
  A log given by its time-stamped messages and its end time, answering a query with the
  messages stamped within the two bounds, and a file system given by the list of the paths
  that exist, where joining two paths appends them with one separator between them. They
  serve to evaluate the functions on concrete inputs.
\<close>

definition exampleLog :: "(duration \<times> Message) list \<Rightarrow> duration \<Rightarrow> Log" where
  "exampleLog msgs endTime =
     \<lparr>AllMessages = map snd msgs,
      QueryMessages = (\<lambda>s e. map snd (filter (\<lambda>(t, m). s \<le> t \<and> t \<le> e) msgs)),
      StartTime = 0,
      EndTime = endTime\<rparr>"

definition exampleEnv :: "string list \<Rightarrow> Log \<Rightarrow> Env" where
  "exampleEnv files lg =
     \<lparr>joinPaths = (\<lambda>p1 p2. if startsWithSlash p2 then p1 @ p2 else p1 @ ''/'' @ p2),
      exists = (\<lambda>p. p \<in> set files),
      isFile = (\<lambda>p. False),
      absPath = (\<lambda>p. p),
      basename = (\<lambda>p. p),
      lowercase = (\<lambda>p. p),
      uniqueDirectoryPath = (\<lambda>p. p),
      Extract = (\<lambda>p q. False),
      Open = (\<lambda>p. (True, lg))\<rparr>"

text \<open>
  A log of three state messages: at time 0 the seed state with the world (entity 1) and a
  particle emitter (entity 2), at time 1 the creation of entity 3, at time 2 the removal of
  entity 2. The log ends at time 2.
\<close>

definition exampleMessages :: "(duration \<times> Message) list" where
  "exampleMessages =
     [(0, \<lparr>Type = ''gz.msgs.SerializedStateMap'',
           Data = [\<lparr>msg_id = 1, msg_remove = False, msg_components = [World]\<rparr>,
                   \<lparr>msg_id = 2, msg_remove = False,
                    msg_components = [ParticleEmitterCmd True]\<rparr>]\<rparr>),
      (1, \<lparr>Type = ''gz.msgs.SerializedStateMap'',
           Data = [\<lparr>msg_id = 3, msg_remove = False,
                    msg_components = [OtherComponent 0 0]\<rparr>]\<rparr>),
      (2, \<lparr>Type = ''gz.msgs.SerializedStateMap'',
           Data = [\<lparr>msg_id = 2, msg_remove = True, msg_components = []\<rparr>]\<rparr>)]"

text \<open>A started instance playing that log from the directory \<^verbatim>\<open>/log\<close>.\<close>

definition examplePlayback :: LogPlaybackPrivate where
  "examplePlayback =
     newLogPlaybackPrivate
       \<lparr>log := Some (exampleLog exampleMessages 2), logPath := ''/log'', instStarted := True\<rparr>"

text \<open>
  A world holding the world entity 1 and a particle emitter, entity 2, with the given
  command, and no change notification pending; and a started instance playing a log that
  has no messages and ends at time 100.
\<close>

definition emitterWorld :: "bool \<Rightarrow> EntityComponentManager" where
  "emitterWorld emitting =
     \<lparr>Entities = [1, 2], Components = [(1, World), (2, ParticleEmitterCmd emitting)],
      RemoveRequests = {}, Changed = [], EntityCreateOffset = 0\<rparr>"

definition idlePlayback :: LogPlaybackPrivate where
  "idlePlayback =
     newLogPlaybackPrivate
       \<lparr>log := Some (exampleLog [] 100), logPath := ''/log'', instStarted := True\<rparr>"



section \<open>Properties\<close>

subsection \<open>Resource URI rewriting\<close>

lemma PrependLogPath_disabled:
  "\<not> doReplaceResourceURIs d \<Longrightarrow> PrependLogPath env u d = (u, d)"
  by (simp add: PrependLogPath_def)

lemma needsPrepend_rewritten:
  "take (length lp) j = lp \<Longrightarrow> \<not> needsPrepend lp (filePrefix @ j)"
  by (simp add: needsPrepend_def startsWithSlash_def filePrefix_def)

lemma needsPrepend_Nil [simp]: "\<not> needsPrepend lp []"
  by (simp add: needsPrepend_def startsWithSlash_def filePrefix_def)

lemma PrependLogPath_stable:
  "\<not> needsPrepend (logPath d) u \<Longrightarrow> PrependLogPath env u d = (u, d)"
  by (simp add: PrependLogPath_def)

lemma PrependLogPath_enabled_after:
  assumes "PrependLogPath env u d = (u', d')" "doReplaceResourceURIs d'"
    "joinKeepsLogPath env (logPath d)"
  shows "d' = d \<and> \<not> needsPrepend (logPath d) u'"
  using assms
  by (auto simp: PrependLogPath_def Let_def joinKeepsLogPath_def needsPrepend_rewritten
      split: if_splits)

lemma SetData_geo [simp]: "SetData (MESH u) (MESH u') geoUriEqual = MESH u'"
  by (simp add: SetData_def uriEqual_def)

lemma SetData_mat [simp]: "SetData u u' matUriEqual = u'"
  by (simp add: SetData_def uriEqual_def matUriEqual_def)

lemma replaceGeometryURI_stable:
  "geoStable (logPath d) c \<Longrightarrow> replaceGeometryURI env c d = (c, d)"
  by (induction env c d rule: replaceGeometryURI.induct) (simp_all add: PrependLogPath_stable)

lemma replaceMaterialURI_stable:
  "matStable (logPath d) c \<Longrightarrow> replaceMaterialURI env c d = (c, d)"
  by (induction env c d rule: replaceMaterialURI.induct) (simp_all add: PrependLogPath_stable)

lemma Each_fixed:
  "(\<And>c. c \<in> set cs \<Longrightarrow> f c s = (c, s)) \<Longrightarrow> Each f cs s = (cs, s)"
  by (induction cs) simp_all

lemma replaceGeometryURI_disabled:
  "\<not> doReplaceResourceURIs d \<Longrightarrow> replaceGeometryURI env c d = (c, d)"
  by (induction env c d rule: replaceGeometryURI.induct) (simp_all add: PrependLogPath_disabled)

lemma replaceMaterialURI_disabled:
  "\<not> doReplaceResourceURIs d \<Longrightarrow> replaceMaterialURI env c d = (c, d)"
  by (induction env c d rule: replaceMaterialURI.induct) (simp_all add: PrependLogPath_disabled)

lemma replaceGeometryURI_enabled_after:
  assumes "replaceGeometryURI env c d = (c', d')" "doReplaceResourceURIs d'"
    "joinKeepsLogPath env (logPath d)"
  shows "d' = d \<and> geoStable (logPath d) c'"
  using assms
  by (induction env c d rule: replaceGeometryURI.induct)
     (auto split: if_splits prod.splits dest: PrependLogPath_enabled_after)

lemma replaceMaterialURI_enabled_after:
  assumes "replaceMaterialURI env c d = (c', d')" "doReplaceResourceURIs d'"
    "joinKeepsLogPath env (logPath d)"
  shows "d' = d \<and> matStable (logPath d) c'"
  using assms
  by (induction env c d rule: replaceMaterialURI.induct)
     (auto split: if_splits prod.splits dest: PrependLogPath_enabled_after)

lemma Each_disabled_geo:
  "\<not> doReplaceResourceURIs d \<Longrightarrow> Each (replaceGeometryURI env) cs d = (cs, d)"
  by (rule Each_fixed) (simp add: replaceGeometryURI_disabled)

lemma Each_disabled_mat:
  "\<not> doReplaceResourceURIs d \<Longrightarrow> Each (replaceMaterialURI env) cs d = (cs, d)"
  by (rule Each_fixed) (simp add: replaceMaterialURI_disabled)

lemma Each_geo_enabled_after:
  assumes "Each (replaceGeometryURI env) cs d = (cs', d')" "doReplaceResourceURIs d'"
    "joinKeepsLogPath env (logPath d)"
  shows "d' = d \<and> list_all (geoStable (logPath d)) cs'"
  using assms
proof (induction cs arbitrary: d cs' d')
  case Nil
  then show ?case by simp
next
  case (Cons c cs)
  obtain c1 d1 where c1: "replaceGeometryURI env c d = (c1, d1)"
    by (cases "replaceGeometryURI env c d")
  obtain cs2 d2 where cs2: "Each (replaceGeometryURI env) cs d1 = (cs2, d2)"
    by (cases "Each (replaceGeometryURI env) cs d1")
  from Cons.prems(1) c1 cs2 have res: "cs' = c1 # cs2" "d' = d2" by simp_all
  have on1: "doReplaceResourceURIs d1"
  proof (rule ccontr)
    assume "\<not> doReplaceResourceURIs d1"
    then have "d2 = d1" using cs2 by (simp add: Each_disabled_geo)
    with res Cons.prems(2) \<open>\<not> doReplaceResourceURIs d1\<close> show False by simp
  qed
  from replaceGeometryURI_enabled_after[OF c1 on1 Cons.prems(3)]
  have d1: "d1 = d" and st: "geoStable (logPath d) c1" by simp_all
  from Cons.IH[OF cs2[unfolded d1] _ Cons.prems(3)] res Cons.prems(2)
  have "d2 = d \<and> list_all (geoStable (logPath d)) cs2" by simp
  with res st show ?case by simp
qed

lemma Each_mat_enabled_after:
  assumes "Each (replaceMaterialURI env) cs d = (cs', d')" "doReplaceResourceURIs d'"
    "joinKeepsLogPath env (logPath d)"
  shows "d' = d \<and> list_all (matStable (logPath d)) cs'"
  using assms
proof (induction cs arbitrary: d cs' d')
  case Nil
  then show ?case by simp
next
  case (Cons c cs)
  obtain c1 d1 where c1: "replaceMaterialURI env c d = (c1, d1)"
    by (cases "replaceMaterialURI env c d")
  obtain cs2 d2 where cs2: "Each (replaceMaterialURI env) cs d1 = (cs2, d2)"
    by (cases "Each (replaceMaterialURI env) cs d1")
  from Cons.prems(1) c1 cs2 have res: "cs' = c1 # cs2" "d' = d2" by simp_all
  have on1: "doReplaceResourceURIs d1"
  proof (rule ccontr)
    assume "\<not> doReplaceResourceURIs d1"
    then have "d2 = d1" using cs2 by (simp add: Each_disabled_mat)
    with res Cons.prems(2) \<open>\<not> doReplaceResourceURIs d1\<close> show False by simp
  qed
  from replaceMaterialURI_enabled_after[OF c1 on1 Cons.prems(3)]
  have d1: "d1 = d" and st: "matStable (logPath d) c1" by simp_all
  from Cons.IH[OF cs2[unfolded d1] _ Cons.prems(3)] res Cons.prems(2)
  have "d2 = d \<and> list_all (matStable (logPath d)) cs2" by simp
  with res st show ?case by simp
qed

lemma replaceMaterialURI_geoStable:
  "replaceMaterialURI env c d = (c', d') \<Longrightarrow> geoStable lp c \<Longrightarrow> geoStable lp c'"
  by (induction env c d rule: replaceMaterialURI.induct)
     (auto split: if_splits prod.splits)

lemma Each_mat_geoStable:
  "Each (replaceMaterialURI env) cs d = (cs', d') \<Longrightarrow> list_all (geoStable lp) cs
     \<Longrightarrow> list_all (geoStable lp) cs'"
proof (induction cs arbitrary: d cs' d')
  case Nil
  then show ?case by simp
next
  case (Cons c cs)
  obtain c1 d1 where c1: "replaceMaterialURI env c d = (c1, d1)"
    by (cases "replaceMaterialURI env c d")
  obtain cs2 d2 where cs2: "Each (replaceMaterialURI env) cs d1 = (cs2, d2)"
    by (cases "Each (replaceMaterialURI env) cs d1")
  from Cons.prems(1) c1 cs2 have res: "cs' = c1 # cs2" by simp
  from Cons.prems(2) have "geoStable lp c" "list_all (geoStable lp) cs" by simp_all
  with Cons.IH[OF cs2] replaceMaterialURI_geoStable[OF c1] res show ?case by simp
qed

lemma Each_geo_stable:
  "list_all (geoStable (logPath d)) cs \<Longrightarrow> Each (replaceGeometryURI env) cs d = (cs, d)"
  by (rule Each_fixed) (simp add: list_all_iff replaceGeometryURI_stable)

lemma Each_mat_stable:
  "list_all (matStable (logPath d)) cs \<Longrightarrow> Each (replaceMaterialURI env) cs d = (cs, d)"
  by (rule Each_fixed) (simp add: list_all_iff replaceMaterialURI_stable)

lemma ReplaceResourceURIs_disabled:
  "\<not> doReplaceResourceURIs d \<Longrightarrow> ReplaceResourceURIs env d ecm = (d, ecm)"
  by (simp add: ReplaceResourceURIs_def)

lemma ReplaceResourceURIs_twice:
  assumes "joinKeepsLogPath env (logPath d)" "ReplaceResourceURIs env d ecm = (d1, ecm1)"
  shows "ReplaceResourceURIs env d1 ecm1 = (d1, ecm1)"
proof (cases "doReplaceResourceURIs d1")
  case False
  then show ?thesis by (simp add: ReplaceResourceURIs_disabled)
next
  case True
  have on: "doReplaceResourceURIs d"
    using assms(2) True by (auto simp: ReplaceResourceURIs_def split: if_splits)
  obtain csg dg where g: "Each (replaceGeometryURI env) (Components ecm) d = (csg, dg)"
    by (cases "Each (replaceGeometryURI env) (Components ecm) d")
  obtain csm dm where m: "Each (replaceMaterialURI env) csg dg = (csm, dm)"
    by (cases "Each (replaceMaterialURI env) csg dg")
  from assms(2) on g m have res: "d1 = dm" "ecm1 = ecm\<lparr>Components := csm\<rparr>"
    by (simp_all add: ReplaceResourceURIs_def)
  have ong: "doReplaceResourceURIs dg"
  proof (rule ccontr)
    assume off: "\<not> doReplaceResourceURIs dg"
    then have "dm = dg" using m by (simp add: Each_disabled_mat)
    with res True off show False by simp
  qed
  from Each_geo_enabled_after[OF g ong assms(1)]
  have dg: "dg = d" and gst: "list_all (geoStable (logPath d)) csg" by simp_all
  from Each_mat_enabled_after[OF m[unfolded dg] _ assms(1)] True res
  have dm: "dm = d" and mst: "list_all (matStable (logPath d)) csm" by simp_all
  from Each_mat_geoStable[OF m gst] have gst': "list_all (geoStable (logPath d)) csm" .
  show ?thesis
    using on res dm Each_geo_stable[OF gst'] Each_mat_stable[OF mst]
    by (simp add: ReplaceResourceURIs_def)
qed

lemma PrependLogPath_twice:
  assumes "joinKeepsLogPath env (logPath d)" "PrependLogPath env u d = (u1, d1)"
  shows "PrependLogPath env u1 d1 = (u1, d1)"
proof (cases "doReplaceResourceURIs d1")
  case False
  then show ?thesis by (simp add: PrependLogPath_disabled)
next
  case True
  from PrependLogPath_enabled_after[OF assms(2) True assms(1)]
  show ?thesis by (simp add: PrependLogPath_stable)
qed

lemma playBatch_disabled:
  "\<not> doReplaceResourceURIs d \<Longrightarrow> fst (snd (playBatch env r ms (S, d, ecm))) = d"
  by (induction ms arbitrary: S ecm) (simp_all add: ReplaceResourceURIs_disabled Let_def)

lemma Update_idle:
  "dt info = 0 \<or> \<not> instStarted d \<Longrightarrow> Update env info d ecm ev = Some (d, ecm, ev)"
  by (auto simp: Update_def)

lemma Update_run:
  assumes "dt info \<noteq> 0" and "instStarted d" and "log d = Some lg"
    and "t0 = (if dt info < 0 then 0 else simTime info - dt info)"
    and "S0 = (if dt info < 0 then set (Entities ecm) else {})"
    and "playBatch env (dt info < 0) (QueryMessages lg t0 (simTime info))
           (S0, d\<lparr>batch := QueryMessages lg t0 (simTime info)\<rparr>, ecm) = (S1, d2, ecm1)"
    and "checkParticleEmitterCmds (Components ecm1) (prevParticleEmitterCmds d2, ecm1)
           = (prev, ecm2)"
  shows "Update env info d ecm ev =
           Some (d2\<lparr>prevParticleEmitterCmds := prev\<rparr>, removeEntities S1 ecm2,
                 if EndTime lg \<le> simTime info then ev @ [True] else ev)"
  using assms by (cases "dt info < 0") (simp_all add: Update_def seekWindow_def Let_def)

text \<open>
  Claim C4. When rewriting is enabled, a URI needs the log path prepended, and the joined
  path does not exist, \<^verbatim>\<open>PrependLogPath\<close> returns the URI unmodified and clears
  \<^verbatim>\<open>doReplaceResourceURIs\<close>. From any state with the flag cleared, \<^verbatim>\<open>PrependLogPath\<close>
  returns every URI unmodified and \<^verbatim>\<open>ReplaceResourceURIs\<close> changes nothing, both leaving
  the state as it is, and \<^verbatim>\<open>Update\<close> leaves the flag cleared: rewriting stays disabled.
\<close>

theorem missing_resource_disables_rewriting:
  assumes "doReplaceResourceURIs d" and "needsPrepend (logPath d) uri"
    and "\<not> exists env (joinPaths env (logPath d) (pathNoPrefix uri))"
  shows "PrependLogPath env uri d = (uri, d\<lparr>doReplaceResourceURIs := False\<rparr>) \<and>
         (\<forall>d' u. \<not> doReplaceResourceURIs d' \<longrightarrow> PrependLogPath env u d' = (u, d')) \<and>
         (\<forall>d' ecm. \<not> doReplaceResourceURIs d' \<longrightarrow> ReplaceResourceURIs env d' ecm = (d', ecm)) \<and>
         (\<forall>d' info ecm ev r. \<not> doReplaceResourceURIs d' \<longrightarrow>
            Update env info d' ecm ev = Some r \<longrightarrow> \<not> doReplaceResourceURIs (fst r))"
proof (intro conjI allI impI)
  show "PrependLogPath env uri d = (uri, d\<lparr>doReplaceResourceURIs := False\<rparr>)"
    using assms by (simp add: PrependLogPath_def)
next
  fix d' :: LogPlaybackPrivate and u assume "\<not> doReplaceResourceURIs d'"
  then show "PrependLogPath env u d' = (u, d')" by (rule PrependLogPath_disabled)
next
  fix d' :: LogPlaybackPrivate and ecm assume "\<not> doReplaceResourceURIs d'"
  then show "ReplaceResourceURIs env d' ecm = (d', ecm)" by (rule ReplaceResourceURIs_disabled)
next
  fix d' :: LogPlaybackPrivate and info ecm ev r
  assume off: "\<not> doReplaceResourceURIs d'" and upd: "Update env info d' ecm ev = Some r"
  show "\<not> doReplaceResourceURIs (fst r)"
  proof (cases "dt info = 0 \<or> \<not> instStarted d'")
    case True
    from Update_idle[OF True] upd off show ?thesis by auto
  next
    case False
    then obtain lg where lg: "log d' = Some lg"
      using upd by (cases "log d'") (auto simp: Update_def)
    define t0 where "t0 = (if dt info < 0 then 0 else simTime info - dt info)"
    define S0 where "S0 = (if dt info < 0 then set (Entities ecm) else {})"
    let ?d1 = "d'\<lparr>batch := QueryMessages lg t0 (simTime info)\<rparr>"
    have off1: "\<not> doReplaceResourceURIs ?d1" using off by simp
    obtain S1 d2 ecm1 where pb:
      "playBatch env (dt info < 0) (QueryMessages lg t0 (simTime info)) (S0, ?d1, ecm)
         = (S1, d2, ecm1)"
      by (metis prod_cases3)
    obtain prev ecm2 where ck:
      "checkParticleEmitterCmds (Components ecm1) (prevParticleEmitterCmds d2, ecm1)
         = (prev, ecm2)"
      by (metis surj_pair)
    from playBatch_disabled[OF off1, of env "dt info < 0" "QueryMessages lg t0 (simTime info)" S0 ecm] pb have "d2 = ?d1" by simp
    with Update_run[OF _ _ lg t0_def S0_def pb ck, of ev] False upd off show ?thesis
      by auto
  qed
qed

text \<open>The fallback at a bare path whose joined path does not exist.\<close>

theorem missing_resource_disables_rewriting_witness:
  "doReplaceResourceURIs (newLogPlaybackPrivate\<lparr>logPath := ''/log''\<rparr>) \<and>
   needsPrepend ''/log'' ''/meshes/a.dae'' \<and>
   \<not> exists (exampleEnv [] (exampleLog [] 0)) ''/log/meshes/a.dae'' \<and>
   PrependLogPath (exampleEnv [] (exampleLog [] 0)) ''/meshes/a.dae''
       (newLogPlaybackPrivate\<lparr>logPath := ''/log''\<rparr>)
     = (''/meshes/a.dae'',
        newLogPlaybackPrivate\<lparr>logPath := ''/log'', doReplaceResourceURIs := False\<rparr>) \<and>
   PrependLogPath (exampleEnv [] (exampleLog [] 0)) ''file:///meshes/b.dae''
       (newLogPlaybackPrivate\<lparr>logPath := ''/log'', doReplaceResourceURIs := False\<rparr>)
     = (''file:///meshes/b.dae'',
        newLogPlaybackPrivate\<lparr>logPath := ''/log'', doReplaceResourceURIs := False\<rparr>)"
  using missing_resource_disables_rewriting
          [of "newLogPlaybackPrivate\<lparr>logPath := ''/log''\<rparr>" "''/meshes/a.dae''"
              "exampleEnv [] (exampleLog [] 0)"]
  by (simp add: newLogPlaybackPrivate_def exampleEnv_def needsPrepend_def startsWithSlash_def
        pathNoPrefix_def filePrefix_def)

text \<open>
  Claim C6. Where a path joined to the log path begins with the log path, the rewriter is
  idempotent: the URI that \<^verbatim>\<open>PrependLogPath\<close> returns is returned unchanged, state
  included, when it is handed to \<^verbatim>\<open>PrependLogPath\<close> again, and a second
  \<^verbatim>\<open>ReplaceResourceURIs\<close> on the components the first one left changes neither the
  components nor the state. A URI that has been prefixed is not prefixed again.
\<close>

theorem rewriter_idempotent:
  assumes "joinKeepsLogPath env (logPath d)"
  shows "(\<forall>u u1 d1. PrependLogPath env u d = (u1, d1) \<longrightarrow> PrependLogPath env u1 d1 = (u1, d1)) \<and>
         (\<forall>ecm d1 ecm1. ReplaceResourceURIs env d ecm = (d1, ecm1) \<longrightarrow>
            ReplaceResourceURIs env d1 ecm1 = (d1, ecm1))"
  using PrependLogPath_twice[OF assms] ReplaceResourceURIs_twice[OF assms] by blast

text \<open>
  A mesh given by a bare path and a material given by a \<^verbatim>\<open>file://\<close> URI, both recorded
  under the log path: the first call prefixes both, the second changes nothing.
\<close>

theorem rewriter_idempotent_witness:
  "joinKeepsLogPath (exampleEnv [''/log/meshes/a.dae'', ''/log/mat/b.material''] (exampleLog [] 0))
     (logPath (newLogPlaybackPrivate\<lparr>logPath := ''/log''\<rparr>)) \<and>
   ReplaceResourceURIs (exampleEnv [''/log/meshes/a.dae'', ''/log/mat/b.material''] (exampleLog [] 0))
     (newLogPlaybackPrivate\<lparr>logPath := ''/log''\<rparr>)
     \<lparr>Entities = [1, 2],
      Components = [(1, Geometry (MESH ''/meshes/a.dae'')), (2, Material ''file:///mat/b.material'')],
      RemoveRequests = {}, Changed = [], EntityCreateOffset = 0\<rparr>
   = (newLogPlaybackPrivate\<lparr>logPath := ''/log''\<rparr>,
      \<lparr>Entities = [1, 2],
       Components = [(1, Geometry (MESH ''file:///log/meshes/a.dae'')),
                     (2, Material ''file:///log/mat/b.material'')],
       RemoveRequests = {}, Changed = [], EntityCreateOffset = 0\<rparr>) \<and>
   ReplaceResourceURIs (exampleEnv [''/log/meshes/a.dae'', ''/log/mat/b.material''] (exampleLog [] 0))
     (newLogPlaybackPrivate\<lparr>logPath := ''/log''\<rparr>)
     \<lparr>Entities = [1, 2],
      Components = [(1, Geometry (MESH ''file:///log/meshes/a.dae'')),
                    (2, Material ''file:///log/mat/b.material'')],
      RemoveRequests = {}, Changed = [], EntityCreateOffset = 0\<rparr>
   = (newLogPlaybackPrivate\<lparr>logPath := ''/log''\<rparr>,
      \<lparr>Entities = [1, 2],
       Components = [(1, Geometry (MESH ''file:///log/meshes/a.dae'')),
                     (2, Material ''file:///log/mat/b.material'')],
       RemoveRequests = {}, Changed = [], EntityCreateOffset = 0\<rparr>)"
proof -
  let ?env = "exampleEnv [''/log/meshes/a.dae'', ''/log/mat/b.material''] (exampleLog [] 0)"
  let ?d = "newLogPlaybackPrivate\<lparr>logPath := ''/log''\<rparr>"
  have k: "joinKeepsLogPath ?env (logPath ?d)"
    by (simp add: joinKeepsLogPath_def exampleEnv_def)
  have first: "ReplaceResourceURIs ?env ?d
     \<lparr>Entities = [1, 2],
      Components = [(1, Geometry (MESH ''/meshes/a.dae'')), (2, Material ''file:///mat/b.material'')],
      RemoveRequests = {}, Changed = [], EntityCreateOffset = 0\<rparr>
   = (?d,
      \<lparr>Entities = [1, 2],
       Components = [(1, Geometry (MESH ''file:///log/meshes/a.dae'')),
                     (2, Material ''file:///log/mat/b.material'')],
       RemoveRequests = {}, Changed = [], EntityCreateOffset = 0\<rparr>)"
    by (simp add: ReplaceResourceURIs_def PrependLogPath_def newLogPlaybackPrivate_def
          exampleEnv_def needsPrepend_def startsWithSlash_def pathNoPrefix_def filePrefix_def)
  from rewriter_idempotent[OF k] first k show ?thesis by blast
qed

text \<open>
  Claim C8, as the code has it. When rewriting is enabled, the URI needs the log path
  prepended (it starts with \<^verbatim>\<open>/\<close>, or with \<^verbatim>\<open>file://\<close> followed by something that
  is not under the log path) and the joined path exists, \<^verbatim>\<open>PrependLogPath\<close> returns
  \<^verbatim>\<open>file://\<close> followed by the joined path, whether the URI had the scheme or not; the
  path joined to the log path is the URI itself when it starts with \<^verbatim>\<open>/\<close> and the URI
  without its scheme otherwise.
\<close>

theorem prepend_adds_file_scheme:
  assumes "doReplaceResourceURIs d" and "needsPrepend (logPath d) uri"
    and "exists env (joinPaths env (logPath d) (pathNoPrefix uri))"
  shows "PrependLogPath env uri d =
           (filePrefix @ joinPaths env (logPath d) (pathNoPrefix uri), d) \<and>
         pathNoPrefix uri = (if startsWithSlash uri then uri else drop (length filePrefix) uri)"
  using assms by (simp add: PrependLogPath_def pathNoPrefix_def)

text \<open>A \<^verbatim>\<open>file://\<close> URI keeps its scheme.\<close>

theorem prepend_adds_file_scheme_witness:
  "doReplaceResourceURIs (newLogPlaybackPrivate\<lparr>logPath := ''/log''\<rparr>) \<and>
   needsPrepend ''/log'' ''file:///meshes/a.dae'' \<and>
   exists (exampleEnv [''/log/meshes/a.dae''] (exampleLog [] 0)) ''/log/meshes/a.dae'' \<and>
   PrependLogPath (exampleEnv [''/log/meshes/a.dae''] (exampleLog [] 0)) ''file:///meshes/a.dae''
       (newLogPlaybackPrivate\<lparr>logPath := ''/log''\<rparr>)
     = (''file:///log/meshes/a.dae'', newLogPlaybackPrivate\<lparr>logPath := ''/log''\<rparr>)"
  using prepend_adds_file_scheme
          [of "newLogPlaybackPrivate\<lparr>logPath := ''/log''\<rparr>" "''file:///meshes/a.dae''"
              "exampleEnv [''/log/meshes/a.dae''] (exampleLog [] 0)"]
  by (simp add: newLogPlaybackPrivate_def exampleEnv_def needsPrepend_def startsWithSlash_def
        pathNoPrefix_def filePrefix_def)

text \<open>
  Claim C8 as stated fails: a bare absolute path does not stay a bare path. The URI
  \<^verbatim>\<open>/meshes/a.dae\<close> has no \<^verbatim>\<open>file://\<close> scheme, its joined path exists, and the
  rewriter returns \<^verbatim>\<open>file:///log/meshes/a.dae\<close>, not \<^verbatim>\<open>/log/meshes/a.dae\<close>.
\<close>

theorem bare_path_gets_file_scheme_counterexample:
  "take (length filePrefix) ''/meshes/a.dae'' \<noteq> filePrefix \<and>
   exists (exampleEnv [''/log/meshes/a.dae''] (exampleLog [] 0))
     (joinPaths (exampleEnv [''/log/meshes/a.dae''] (exampleLog [] 0)) ''/log'' ''/meshes/a.dae'') \<and>
   fst (PrependLogPath (exampleEnv [''/log/meshes/a.dae''] (exampleLog [] 0)) ''/meshes/a.dae''
          (newLogPlaybackPrivate\<lparr>logPath := ''/log''\<rparr>))
     = ''file:///log/meshes/a.dae'' \<and>
   fst (PrependLogPath (exampleEnv [''/log/meshes/a.dae''] (exampleLog [] 0)) ''/meshes/a.dae''
          (newLogPlaybackPrivate\<lparr>logPath := ''/log''\<rparr>))
     \<noteq> ''/log/meshes/a.dae''"
  by (simp add: PrependLogPath_def newLogPlaybackPrivate_def exampleEnv_def needsPrepend_def
        startsWithSlash_def pathNoPrefix_def filePrefix_def)

subsection \<open>Update\<close>

lemma updateEntitiesToRemove_append:
  "updateEntitiesToRemove (xs @ ys) S = updateEntitiesToRemove ys (updateEntitiesToRemove xs S)"
  by (induction xs arbitrary: S) simp_all



lemma stateRecords_Cons:
  "stateRecords (m # ms) = (if isStateMsg m then Data m else []) @ stateRecords ms"
  by (simp add: stateRecords_def)

lemma playBatch_entitiesToRemove_gen:
  "fst (playBatch env r ms st) =
     (if r then updateEntitiesToRemove (stateRecords ms) (fst st) else fst st)"
proof (induction ms arbitrary: st)
  case Nil
  then show ?case by (simp add: stateRecords_def)
next
  case (Cons m ms)
  obtain S d ecm where st: "st = (S, d, ecm)" by (cases st)
  show ?case
    unfolding st using Cons.IH
    by (cases r)
       (simp_all add: stateRecords_Cons isStateMsg_def updateEntitiesToRemove_append
          Let_def split: prod.splits)
qed

lemma playBatch_entitiesToRemove:
  "playBatch env r ms (S, d, ecm) = (S', d', ecm') \<Longrightarrow>
     S' = (if r then updateEntitiesToRemove (stateRecords ms) S else S)"
  using playBatch_entitiesToRemove_gen[of env r ms "(S, d, ecm)"] by simp

lemma fold_RequestRemoveEntity:
  "fold RequestRemoveEntity xs ecm = ecm\<lparr>RemoveRequests := RemoveRequests ecm \<union> set xs\<rparr>"
  by (induction xs arbitrary: ecm) (simp_all add: RequestRemoveEntity_def)

lemma removeEntities_finite:
  "finite S \<Longrightarrow> removeEntities S ecm = ecm\<lparr>RemoveRequests := RemoveRequests ecm \<union> S\<rparr>"
  by (simp add: removeEntities_def fold_RequestRemoveEntity)

lemma removeEntities_empty [simp]: "removeEntities {} ecm = ecm"
  by (simp add: removeEntities_def)

lemma PrependLogPath_state:
  "PrependLogPath env u d = (u', d') \<Longrightarrow> d' = d \<or> d' = d\<lparr>doReplaceResourceURIs := False\<rparr>"
  by (auto simp: PrependLogPath_def Let_def split: if_splits)

lemma replaceGeometryURI_state:
  "replaceGeometryURI env c d = (c', d') \<Longrightarrow> d' = d \<or> d' = d\<lparr>doReplaceResourceURIs := False\<rparr>"
  by (induction env c d rule: replaceGeometryURI.induct)
     (auto split: if_splits prod.splits dest: PrependLogPath_state)

lemma replaceMaterialURI_state:
  "replaceMaterialURI env c d = (c', d') \<Longrightarrow> d' = d \<or> d' = d\<lparr>doReplaceResourceURIs := False\<rparr>"
  by (induction env c d rule: replaceMaterialURI.induct)
     (auto split: if_splits prod.splits dest: PrependLogPath_state)

lemma Each_state:
  assumes "\<And>c d c' d'. f c d = (c', d') \<Longrightarrow> d' = d \<or> d' = d\<lparr>doReplaceResourceURIs := False\<rparr>"
  shows "Each f cs d = (cs', d') \<Longrightarrow> d' = d \<or> d' = d\<lparr>doReplaceResourceURIs := False\<rparr>"
proof (induction cs arbitrary: d cs' d')
  case Nil
  then show ?case by simp
next
  case (Cons c cs)
  obtain c1 d1 where c1: "f c d = (c1, d1)" by (cases "f c d")
  obtain cs2 d2 where cs2: "Each f cs d1 = (cs2, d2)" by (cases "Each f cs d1")
  from Cons.prems c1 cs2 have "d' = d2" by simp
  with assms[OF c1] Cons.IH[OF cs2] show ?case by auto
qed

lemma ReplaceResourceURIs_state:
  assumes "ReplaceResourceURIs env d ecm = (d', ecm')"
  shows "(d' = d \<or> d' = d\<lparr>doReplaceResourceURIs := False\<rparr>) \<and>
         (\<exists>cs. ecm' = ecm\<lparr>Components := cs\<rparr>)"
proof (cases "doReplaceResourceURIs d")
  case False
  with assms show ?thesis by (auto simp: ReplaceResourceURIs_def intro: exI[of _ "Components ecm"])
next
  case True
  obtain csg dg where g: "Each (replaceGeometryURI env) (Components ecm) d = (csg, dg)"
    by (cases "Each (replaceGeometryURI env) (Components ecm) d")
  obtain csm dm where m: "Each (replaceMaterialURI env) csg dg = (csm, dm)"
    by (cases "Each (replaceMaterialURI env) csg dg")
  from assms True g m have res: "d' = dm" "ecm' = ecm\<lparr>Components := csm\<rparr>"
    by (simp_all add: ReplaceResourceURIs_def)
  have "dg = d \<or> dg = d\<lparr>doReplaceResourceURIs := False\<rparr>"
    by (rule Each_state[OF _ g]) (rule replaceGeometryURI_state)
  moreover have "dm = dg \<or> dm = dg\<lparr>doReplaceResourceURIs := False\<rparr>"
    by (rule Each_state[OF _ m]) (rule replaceMaterialURI_state)
  ultimately show ?thesis using res by auto
qed

lemma playBatch_state:
  "playBatch env r ms (S, d, ecm) = (S', d', ecm') \<Longrightarrow>
     d' = d \<or> d' = d\<lparr>doReplaceResourceURIs := False\<rparr>"
proof (induction ms arbitrary: S d ecm)
  case Nil
  then show ?case by simp
next
  case (Cons m ms)
  obtain S1 ecm1 where p: 
    "(if Type m = ''gz.msgs.SerializedState'' then
        ((if r then updateEntitiesToRemove (Data m) S else S), Parse ecm (Data m))
      else if Type m = ''gz.msgs.SerializedStateMap'' then
        ((if r then updateEntitiesToRemove (Data m) S else S), Parse ecm (Data m))
      else if Type m = ''gz.msgs.StringMsg'' then (S, ecm)
      else (S, ecm)) = (S1, ecm1)"
    by (metis surj_pair)
  obtain d1 ecm2 where rr: "ReplaceResourceURIs env d ecm1 = (d1, ecm2)"
    by (cases "ReplaceResourceURIs env d ecm1")
  from Cons.prems p rr have "playBatch env r ms (S1, d1, ecm2) = (S', d', ecm')"
    by (simp add: Let_def)
  from Cons.IH[OF this] ReplaceResourceURIs_state[OF rr] show ?case by auto
qed


lemma playBatch_fields:
  assumes "playBatch env r ms (S, d, ecm) = (S', d', ecm')"
  shows "batch d' = batch d \<and> log d' = log d \<and> instStarted d' = instStarted d \<and>
         printedEnd d' = printedEnd d \<and> logPath d' = logPath d \<and>
         prevParticleEmitterCmds d' = prevParticleEmitterCmds d"
  using playBatch_state[OF assms] by auto

text \<open>
  Claim C1. On a step with a negative \<^verbatim>\<open>dt\<close> the rewind flag is set, the entities to
  remove are exactly the entities of the world, and the query runs from 0 to the simulation
  time. With a started instance \<^verbatim>\<open>Update\<close> then replays the batch of that query with
  the rewind flag set, starting from that set of entities, and stores the batch.
\<close>

theorem rewind_replays_whole_log:
  assumes "dt info < 0"
  shows "seekWindow info ecm = (True, set (Entities ecm), 0, simTime info) \<and>
         (instStarted d \<and> log d = Some lg \<longrightarrow>
            (\<exists>S1 d2 ecm1 prev ecm2.
               playBatch env True (QueryMessages lg 0 (simTime info))
                 (set (Entities ecm), d\<lparr>batch := QueryMessages lg 0 (simTime info)\<rparr>, ecm)
                 = (S1, d2, ecm1) \<and>
               checkParticleEmitterCmds (Components ecm1) (prevParticleEmitterCmds d2, ecm1)
                 = (prev, ecm2) \<and>
               Update env info d ecm ev =
                 Some (d2\<lparr>prevParticleEmitterCmds := prev\<rparr>, removeEntities S1 ecm2,
                       if EndTime lg \<le> simTime info then ev @ [True] else ev) \<and>
               batch d2 = QueryMessages lg 0 (simTime info)))"
proof (intro conjI impI)
  show "seekWindow info ecm = (True, set (Entities ecm), 0, simTime info)"
    using assms by (simp add: seekWindow_def)
next
  assume a: "instStarted d \<and> log d = Some lg"
  let ?msgs = "QueryMessages lg 0 (simTime info)"
  obtain S1 d2 ecm1 where pb:
    "playBatch env True ?msgs (set (Entities ecm), d\<lparr>batch := ?msgs\<rparr>, ecm) = (S1, d2, ecm1)"
    by (metis prod_cases3)
  obtain prev ecm2 where ck:
    "checkParticleEmitterCmds (Components ecm1) (prevParticleEmitterCmds d2, ecm1) = (prev, ecm2)"
    by (metis surj_pair)
  have upd: "Update env info d ecm ev =
       Some (d2\<lparr>prevParticleEmitterCmds := prev\<rparr>, removeEntities S1 ecm2,
             if EndTime lg \<le> simTime info then ev @ [True] else ev)"
    by (rule Update_run[where ?t0.0 = 0 and ?S0.0 = "set (Entities ecm)"])
       (use assms a pb ck in simp_all)
  from playBatch_fields[OF pb] have "batch d2 = ?msgs" by simp
  with pb ck upd show "\<exists>S1 d2 ecm1 prev ecm2.
       playBatch env True ?msgs (set (Entities ecm), d\<lparr>batch := ?msgs\<rparr>, ecm) = (S1, d2, ecm1) \<and>
       checkParticleEmitterCmds (Components ecm1) (prevParticleEmitterCmds d2, ecm1)
         = (prev, ecm2) \<and>
       Update env info d ecm ev =
         Some (d2\<lparr>prevParticleEmitterCmds := prev\<rparr>, removeEntities S1 ecm2,
               if EndTime lg \<le> simTime info then ev @ [True] else ev) \<and>
       batch d2 = ?msgs"
    by blast
qed

text \<open>
  A jump back from time 2 to time 0 in the example log, in a world holding the entities 1
  and 3: the seed state is replayed, entity 2 is created again and entity 3 is removed.
\<close>

theorem rewind_replays_whole_log_witness:
  "dt \<lparr>simTime = 0, dt = -2\<rparr> < 0 \<and> instStarted examplePlayback \<and>
   log examplePlayback = Some (exampleLog exampleMessages 2) \<and>
   seekWindow \<lparr>simTime = 0, dt = -2\<rparr>
     \<lparr>Entities = [1, 3], Components = [(1, World), (3, OtherComponent 0 0)],
      RemoveRequests = {}, Changed = [], EntityCreateOffset = 0\<rparr>
     = (True, {1, 3}, 0, 0) \<and>
   map_option (\<lambda>(d, ecm, ev). (batch d, ecm, ev))
     (Update (exampleEnv [] (exampleLog exampleMessages 2)) \<lparr>simTime = 0, dt = -2\<rparr>
        examplePlayback
        \<lparr>Entities = [1, 3], Components = [(1, World), (3, OtherComponent 0 0)],
         RemoveRequests = {}, Changed = [], EntityCreateOffset = 0\<rparr> [])
     = Some (QueryMessages (exampleLog exampleMessages 2) 0 0,
             \<lparr>Entities = [1, 3, 2],
              Components = [(1, World), (3, OtherComponent 0 0), (2, ParticleEmitterCmd True)],
              RemoveRequests = {3}, Changed = [], EntityCreateOffset = 0\<rparr>,
             [])"
  using rewind_replays_whole_log
          [of "\<lparr>simTime = 0, dt = -2\<rparr>"
              "\<lparr>Entities = [1, 3], Components = [(1, World), (3, OtherComponent 0 0)],
                RemoveRequests = {}, Changed = [], EntityCreateOffset = 0\<rparr>"
              examplePlayback "exampleLog exampleMessages 2"
              "exampleEnv [] (exampleLog exampleMessages 2)" "[]"]
  by (simp add: Update_def seekWindow_def examplePlayback_def newLogPlaybackPrivate_def
        exampleLog_def exampleMessages_def Parse_def ReplaceResourceURIs_def
        removeEntities_finite RequestRemoveEntity_def Let_def)


lemma checkParticleEmitterCmds_world:
  "checkParticleEmitterCmds cs (prev, ecm) = (prev', ecm') \<Longrightarrow>
     \<exists>ch. ecm' = ecm\<lparr>Changed := Changed ecm @ ch\<rparr>"
proof (induction cs "(prev, ecm)" arbitrary: prev ecm rule: checkParticleEmitterCmds.induct)
  case 1
  then show ?case by (auto intro: exI[of _ "[]"])
next
  case (2 e emitting cs prev ecm)
  show ?case
  proof (cases "prev e")
    case None
    with 2 show ?thesis by simp
  next
    case (Some p)
    show ?thesis
    proof (cases "p = emitting")
      case True
      with 2 Some show ?thesis by simp
    next
      case False
      with 2(2)[OF Some] 2(4) Some
      obtain ch where "ecm' = (SetChanged e ParticleEmitterCmdT OneTimeChange ecm)
          \<lparr>Changed := Changed (SetChanged e ParticleEmitterCmdT OneTimeChange ecm) @ ch\<rparr>"
        by auto
      then have "ecm' = ecm\<lparr>Changed := Changed ecm @ ((e, ParticleEmitterCmdT, OneTimeChange) # ch)\<rparr>"
        by (simp add: SetChanged_def)
      then show ?thesis by blast
    qed
  qed
qed auto

subsection \<open>The end of the log\<close>

text \<open>
  Claim C3 is not what \<^verbatim>\<open>Update\<close> does. Every step with a non-zero \<^verbatim>\<open>dt\<close> on a
  started instance whose simulation time has reached the end time of the log emits
  \<^verbatim>\<open>Pause(true)\<close>; the instance stays started with the same log, and \<^verbatim>\<open>printedEnd\<close> is
  left as it was, so the next such step emits the event again.
\<close>

theorem pause_emitted_on_every_step_at_end:
  assumes "dt info \<noteq> 0" and "instStarted d" and "log d = Some lg"
    and "EndTime lg \<le> simTime info"
  shows "\<exists>d' ecm'. Update env info d ecm ev = Some (d', ecm', ev @ [True]) \<and>
           instStarted d' \<and> log d' = Some lg \<and> printedEnd d' = printedEnd d"
proof -
  define t0 where "t0 = (if dt info < 0 then 0 else simTime info - dt info)"
  define S0 where "S0 = (if dt info < 0 then set (Entities ecm) else {})"
  let ?msgs = "QueryMessages lg t0 (simTime info)"
  obtain S1 d2 ecm1 where pb:
    "playBatch env (dt info < 0) ?msgs (S0, d\<lparr>batch := ?msgs\<rparr>, ecm) = (S1, d2, ecm1)"
    by (metis prod_cases3)
  obtain prev ecm2 where ck:
    "checkParticleEmitterCmds (Components ecm1) (prevParticleEmitterCmds d2, ecm1) = (prev, ecm2)"
    by (metis surj_pair)
  from Update_run[OF assms(1-3) t0_def S0_def pb ck, of ev] assms(4)
  have "Update env info d ecm ev =
          Some (d2\<lparr>prevParticleEmitterCmds := prev\<rparr>, removeEntities S1 ecm2, ev @ [True])"
    by simp
  moreover from playBatch_fields[OF pb] assms
  have "instStarted (d2\<lparr>prevParticleEmitterCmds := prev\<rparr>)"
    "log (d2\<lparr>prevParticleEmitterCmds := prev\<rparr>) = Some lg"
    "printedEnd (d2\<lparr>prevParticleEmitterCmds := prev\<rparr>) = printedEnd d"
    by simp_all
  ultimately show ?thesis by blast
qed


text \<open>
  Two steps in a row in the example log, at its end time 2 and at time 3: after the first
  the events emitted are one pause, after the second they are two.
\<close>

theorem pause_emitted_on_every_step_at_end_witness:
  "(case Update (exampleEnv [] (exampleLog exampleMessages 2)) \<lparr>simTime = 2, dt = 1\<rparr>
          examplePlayback
          \<lparr>Entities = [1, 2, 3],
           Components = [(1, World), (2, ParticleEmitterCmd True), (3, OtherComponent 0 0)],
           RemoveRequests = {}, Changed = [], EntityCreateOffset = 0\<rparr> [] of
      None \<Rightarrow> False
    | Some (d1, ecm1, ev1) \<Rightarrow>
        ev1 = [True] \<and> printedEnd d1 = False \<and>
        (case Update (exampleEnv [] (exampleLog exampleMessages 2)) \<lparr>simTime = 3, dt = 1\<rparr>
                d1 ecm1 ev1 of
           None \<Rightarrow> False
         | Some (d2, ecm2, ev2) \<Rightarrow> ev2 = [True, True] \<and> printedEnd d2 = False))"
  using pause_emitted_on_every_step_at_end
          [of "\<lparr>simTime = 2, dt = 1\<rparr>" examplePlayback "exampleLog exampleMessages 2"
              "exampleEnv [] (exampleLog exampleMessages 2)"
              "\<lparr>Entities = [1, 2, 3],
                Components = [(1, World), (2, ParticleEmitterCmd True), (3, OtherComponent 0 0)],
                RemoveRequests = {}, Changed = [], EntityCreateOffset = 0\<rparr>" "[]"]
  by (simp add: Update_def seekWindow_def examplePlayback_def newLogPlaybackPrivate_def
        exampleLog_def exampleMessages_def Parse_def ReplaceResourceURIs_def
        removeEntities_finite RequestRemoveEntity_def Let_def)

subsection \<open>The state of the world across a replay\<close>

lemma setComponents_nothing [simp]: "setComponents e [] cs = cs"
  by simp

lemma SetState_RemoveRequests:
  "RemoveRequests (SetState rs ecm) =
     RemoveRequests ecm \<union> {msg_id r |r. r \<in> set rs \<and> msg_remove r}"
  by (induction rs arbitrary: ecm) (auto simp: RequestRemoveEntity_def)

lemma SetState_Entities:
  "set (Entities (SetState rs ecm)) =
     set (Entities ecm) \<union> {msg_id r |r. r \<in> set rs \<and> \<not> msg_remove r}"
  by (induction rs arbitrary: ecm) (auto simp: RequestRemoveEntity_def)

lemma stateRecords_removed:
  "{msg_id r |r. r \<in> set (stateRecords (m # ms)) \<and> P r} =
     (if isStateMsg m then {msg_id r |r. r \<in> set (Data m) \<and> P r} else {}) \<union>
     {msg_id r |r. r \<in> set (stateRecords ms) \<and> P r}"
  by (auto simp: stateRecords_Cons)

lemma playBatch_world_gen:
  "RemoveRequests (snd (snd (playBatch env r ms st))) =
     RemoveRequests (snd (snd st)) \<union> {msg_id x |x. x \<in> set (stateRecords ms) \<and> msg_remove x} \<and>
   set (Entities (snd (snd (playBatch env r ms st)))) =
     set (Entities (snd (snd st))) \<union> {msg_id x |x. x \<in> set (stateRecords ms) \<and> \<not> msg_remove x}"
proof (induction ms arbitrary: st)
  case Nil
  then show ?case by (simp add: stateRecords_def)
next
  case (Cons m ms)
  obtain S d ecm where st: "st = (S, d, ecm)" by (cases st)
  define ecm1 where "ecm1 = (if isStateMsg m then Parse ecm (Data m) else ecm)"
  define S1 where "S1 = (if isStateMsg m \<and> r then updateEntitiesToRemove (Data m) S else S)"
  obtain d1 ecm2 where rr: "ReplaceResourceURIs env d ecm1 = (d1, ecm2)"
    by (cases "ReplaceResourceURIs env d ecm1")
  have step: "playBatch env r (m # ms) st = playBatch env r ms (S1, d1, ecm2)"
    using rr by (auto simp: st ecm1_def S1_def isStateMsg_def Let_def)
  from ReplaceResourceURIs_state[OF rr]
  have same: "RemoveRequests ecm2 = RemoveRequests ecm1" "Entities ecm2 = Entities ecm1"
    by auto
  have p1: "RemoveRequests ecm1 =
      RemoveRequests ecm \<union> (if isStateMsg m then {msg_id x |x. x \<in> set (Data m) \<and> msg_remove x} else {})"
    by (simp add: ecm1_def Parse_def SetState_RemoveRequests)
  have p2: "set (Entities ecm1) =
      set (Entities ecm) \<union> (if isStateMsg m then {msg_id x |x. x \<in> set (Data m) \<and> \<not> msg_remove x} else {})"
    by (simp add: ecm1_def Parse_def SetState_Entities)
  show ?case
    unfolding step stateRecords_removed
    using Cons.IH[of "(S1, d1, ecm2)"] same p1 p2 st
    by (simp add: Un_assoc)
qed

lemma playBatch_world:
  assumes "playBatch env r ms (S, d, ecm) = (S', d', ecm')"
  shows "RemoveRequests ecm' =
           RemoveRequests ecm \<union> {msg_id x |x. x \<in> set (stateRecords ms) \<and> msg_remove x}"
    and "set (Entities ecm') =
           set (Entities ecm) \<union> {msg_id x |x. x \<in> set (stateRecords ms) \<and> \<not> msg_remove x}"
  using playBatch_world_gen[of env r ms "(S, d, ecm)"] assms by simp_all


subsection \<open>The entities to remove on a jump back in time\<close>





subsection \<open>A step forward\<close>

text \<open>
  Claim C10. On a step with a positive \<^verbatim>\<open>dt\<close> the entities to remove are empty before
  the replay and after it, so the last loop requests no removal and the world \<^verbatim>\<open>Update\<close>
  returns is the world as the replay and the check of the particle emitters left it. The
  removals requested after the step are those requested before it and those of the records
  marked as removals. An entity of the world whose removal was not requested and that no
  record of the window mentions is still an entity of the world, and its removal is still
  not requested.
\<close>

theorem forward_step_removes_nothing:
  assumes "0 < dt info" and "instStarted d" and "log d = Some lg"
  shows "seekWindow info ecm = (False, {}, simTime info - dt info, simTime info) \<and>
         (\<exists>d2 ecm1 prev ecm2.
            playBatch env False (QueryMessages lg (simTime info - dt info) (simTime info))
              ({}, d\<lparr>batch := QueryMessages lg (simTime info - dt info) (simTime info)\<rparr>, ecm)
              = ({}, d2, ecm1) \<and>
            checkParticleEmitterCmds (Components ecm1) (prevParticleEmitterCmds d2, ecm1)
              = (prev, ecm2) \<and>
            removeEntities {} ecm2 = ecm2 \<and>
            Update env info d ecm ev =
              Some (d2\<lparr>prevParticleEmitterCmds := prev\<rparr>, ecm2,
                    if EndTime lg \<le> simTime info then ev @ [True] else ev) \<and>
            RemoveRequests ecm2 =
              RemoveRequests ecm \<union>
              {msg_id x |x. x \<in> set (stateRecords
                  (QueryMessages lg (simTime info - dt info) (simTime info))) \<and> msg_remove x} \<and>
            (\<forall>e. e \<in> set (Entities ecm) \<and> e \<notin> RemoveRequests ecm \<and>
                 (\<forall>x \<in> set (stateRecords
                     (QueryMessages lg (simTime info - dt info) (simTime info))). msg_id x \<noteq> e)
               \<longrightarrow> e \<in> set (Entities ecm2) \<and> e \<notin> RemoveRequests ecm2))"
proof (intro conjI)
  show "seekWindow info ecm = (False, {}, simTime info - dt info, simTime info)"
    using assms by (simp add: seekWindow_def)
next
  let ?msgs = "QueryMessages lg (simTime info - dt info) (simTime info)"
  obtain S1 d2 ecm1 where pb:
    "playBatch env False ?msgs ({}, d\<lparr>batch := ?msgs\<rparr>, ecm) = (S1, d2, ecm1)"
    by (metis prod_cases3)
  obtain prev ecm2 where ck:
    "checkParticleEmitterCmds (Components ecm1) (prevParticleEmitterCmds d2, ecm1) = (prev, ecm2)"
    by (metis surj_pair)
  have S1: "S1 = {}" using playBatch_entitiesToRemove[OF pb] by simp
  have "Update env info d ecm ev =
       Some (d2\<lparr>prevParticleEmitterCmds := prev\<rparr>, removeEntities S1 ecm2,
             if EndTime lg \<le> simTime info then ev @ [True] else ev)"
    by (rule Update_run[where ?t0.0 = "simTime info - dt info" and ?S0.0 = "{}"])
       (use assms pb ck in simp_all)
  then have upd: "Update env info d ecm ev =
       Some (d2\<lparr>prevParticleEmitterCmds := prev\<rparr>, ecm2,
             if EndTime lg \<le> simTime info then ev @ [True] else ev)"
    by (simp add: S1)
  from checkParticleEmitterCmds_world[OF ck]
  have same: "RemoveRequests ecm2 = RemoveRequests ecm1" "Entities ecm2 = Entities ecm1"
    by auto
  have rr: "RemoveRequests ecm2 =
      RemoveRequests ecm \<union> {msg_id x |x. x \<in> set (stateRecords ?msgs) \<and> msg_remove x}"
    using playBatch_world(1)[OF pb] same by simp
  have en: "set (Entities ecm2) =
      set (Entities ecm) \<union> {msg_id x |x. x \<in> set (stateRecords ?msgs) \<and> \<not> msg_remove x}"
    using playBatch_world(2)[OF pb] same by simp
  have frame: "\<forall>e. e \<in> set (Entities ecm) \<and> e \<notin> RemoveRequests ecm \<and>
        (\<forall>x \<in> set (stateRecords ?msgs). msg_id x \<noteq> e)
        \<longrightarrow> e \<in> set (Entities ecm2) \<and> e \<notin> RemoveRequests ecm2"
    unfolding rr en by auto
  from pb[unfolded S1] ck upd rr frame
  show "\<exists>d2 ecm1 prev ecm2.
      playBatch env False ?msgs ({}, d\<lparr>batch := ?msgs\<rparr>, ecm) = ({}, d2, ecm1) \<and>
      checkParticleEmitterCmds (Components ecm1) (prevParticleEmitterCmds d2, ecm1)
        = (prev, ecm2) \<and>
      removeEntities {} ecm2 = ecm2 \<and>
      Update env info d ecm ev =
        Some (d2\<lparr>prevParticleEmitterCmds := prev\<rparr>, ecm2,
              if EndTime lg \<le> simTime info then ev @ [True] else ev) \<and>
      RemoveRequests ecm2 =
        RemoveRequests ecm \<union> {msg_id x |x. x \<in> set (stateRecords ?msgs) \<and> msg_remove x} \<and>
      (\<forall>e. e \<in> set (Entities ecm) \<and> e \<notin> RemoveRequests ecm \<and>
           (\<forall>x \<in> set (stateRecords ?msgs). msg_id x \<noteq> e)
         \<longrightarrow> e \<in> set (Entities ecm2) \<and> e \<notin> RemoveRequests ecm2)"
    using removeEntities_empty by blast
qed

text \<open>
  A step from time 0 to time 1 in the example log: entity 3 is created, nothing is removed.
\<close>

theorem forward_step_removes_nothing_witness:
  "0 < dt \<lparr>simTime = 1, dt = 1\<rparr> \<and> instStarted examplePlayback \<and>
   log examplePlayback = Some (exampleLog exampleMessages 2) \<and>
   seekWindow \<lparr>simTime = 1, dt = 1\<rparr>
     \<lparr>Entities = [1, 2], Components = [(1, World), (2, ParticleEmitterCmd True)],
      RemoveRequests = {}, Changed = [], EntityCreateOffset = 0\<rparr>
     = (False, {}, 0, 1) \<and>
   map_option (\<lambda>(d, ecm, ev). (Entities ecm, RemoveRequests ecm))
     (Update (exampleEnv [] (exampleLog exampleMessages 2)) \<lparr>simTime = 1, dt = 1\<rparr>
        examplePlayback
        \<lparr>Entities = [1, 2], Components = [(1, World), (2, ParticleEmitterCmd True)],
         RemoveRequests = {}, Changed = [], EntityCreateOffset = 0\<rparr> [])
     = Some ([1, 2, 3], {})"
  using forward_step_removes_nothing
          [of "\<lparr>simTime = 1, dt = 1\<rparr>" examplePlayback "exampleLog exampleMessages 2"
              "\<lparr>Entities = [1, 2], Components = [(1, World), (2, ParticleEmitterCmd True)],
                RemoveRequests = {}, Changed = [], EntityCreateOffset = 0\<rparr>"
              "exampleEnv [] (exampleLog exampleMessages 2)" "[]"]
  by (simp add: Update_def seekWindow_def examplePlayback_def newLogPlaybackPrivate_def
        exampleLog_def exampleMessages_def Parse_def ReplaceResourceURIs_def
        RequestRemoveEntity_def Let_def)

subsection \<open>Particle emitter commands\<close>

lemma checkParticleEmitterCmds_step:
  "checkParticleEmitterCmds ((e, ParticleEmitterCmd v) # cs) (prev, ecm) =
     checkParticleEmitterCmds cs
       (prev(e \<mapsto> v),
        if (\<exists>p. prev e = Some p \<and> p \<noteq> v)
        then SetChanged e ParticleEmitterCmdT OneTimeChange ecm else ecm)"
  by (cases "prev e") (auto simp: fun_upd_idem)

lemma checkParticleEmitterCmds_result:
  assumes "distinct (map fst (emitterCmds cs))"
    and "checkParticleEmitterCmds cs (prev, ecm) = (prev', ecm')"
  shows "prev' = prev ++ map_of (emitterCmds cs) \<and>
         ecm' = ecm\<lparr>Changed := Changed ecm @
                  map (\<lambda>(e, v). (e, ParticleEmitterCmdT, OneTimeChange))
                    (filter (\<lambda>(e, v). \<exists>p. prev e = Some p \<and> p \<noteq> v) (emitterCmds cs))\<rparr>"
  using assms
proof (induction cs arbitrary: prev ecm rule: emitterCmds.induct)
  case 1
  then show ?case by simp
next
  case (2 e emitting cs)
  let ?ecm1 = "if (\<exists>p. prev e = Some p \<and> p \<noteq> emitting)
        then SetChanged e ParticleEmitterCmdT OneTimeChange ecm else ecm"
  from "2.prems"(2) have run: "checkParticleEmitterCmds cs (prev(e \<mapsto> emitting), ?ecm1) = (prev', ecm')"
    by (simp only: checkParticleEmitterCmds_step)
  from "2.prems"(1) have dist: "distinct (map fst (emitterCmds cs))"
    and fresh: "e \<notin> fst ` set (emitterCmds cs)" by auto
  note IH = "2.IH"[OF dist run]
  have filt: "filter (\<lambda>(e', v). \<exists>p. (prev(e \<mapsto> emitting)) e' = Some p \<and> p \<noteq> v) (emitterCmds cs)
      = filter (\<lambda>(e', v). \<exists>p. prev e' = Some p \<and> p \<noteq> v) (emitterCmds cs)"
    using fresh by (intro filter_cong) (auto simp: image_iff)
  have m: "prev(e \<mapsto> emitting) ++ map_of (emitterCmds cs)
      = prev ++ map_of ((e, emitting) # emitterCmds cs)"
    using fresh by (simp add: map_add_upd_left dom_map_of_conv_image_fst)
  from IH have p: "prev' = prev ++ map_of (emitterCmds ((e, ParticleEmitterCmd emitting) # cs))"
    by (simp only: m emitterCmds.simps)
  from IH have c: "ecm' = ?ecm1\<lparr>Changed := Changed ?ecm1 @
       map (\<lambda>(e, v). (e, ParticleEmitterCmdT, OneTimeChange))
         (filter (\<lambda>(e', v). \<exists>p. prev e' = Some p \<and> p \<noteq> v) (emitterCmds cs))\<rparr>"
    by (simp only: filt)
  show ?case
  proof (intro conjI)
    show "prev' = prev ++ map_of (emitterCmds ((e, ParticleEmitterCmd emitting) # cs))"
      by (rule p)
  next
    show "ecm' = ecm\<lparr>Changed := Changed ecm @
        map (\<lambda>(e, v). (e, ParticleEmitterCmdT, OneTimeChange))
          (filter (\<lambda>(e, v). \<exists>p. prev e = Some p \<and> p \<noteq> v)
             (emitterCmds ((e, ParticleEmitterCmd emitting) # cs)))\<rparr>"
      unfolding c by (simp add: SetChanged_def)
  qed
qed simp_all


text \<open>
  Claim C5. Where each entity holds one particle emitter command, the check of the
  particle emitters stores the value of every command it visits, and marks as changed,
  once each, exactly the commands whose stored value differs from their value: a command
  seen for the first time and a command whose value is the one stored are not marked.
  For an emitter whose command is true, true, false, false, true at five steps in a row,
  each starting with no change pending, the steps mark nothing, nothing, the command,
  nothing, the command.
\<close>

theorem particle_emitter_change_is_edge_triggered:
  "(distinct (map fst (emitterCmds cs)) \<longrightarrow>
      (\<forall>prev ecm prev' ecm'.
         checkParticleEmitterCmds cs (prev, ecm) = (prev', ecm') \<longrightarrow>
           prev' = prev ++ map_of (emitterCmds cs) \<and>
           ecm' = ecm\<lparr>Changed := Changed ecm @
                    map (\<lambda>(e, v). (e, ParticleEmitterCmdT, OneTimeChange))
                      (filter (\<lambda>(e, v). \<exists>p. prev e = Some p \<and> p \<noteq> v) (emitterCmds cs))\<rparr>)) \<and>
   snd (foldl
          (\<lambda>(d, flagged) (v, t).
             case Update (exampleEnv [] (exampleLog [] 100)) \<lparr>simTime = t, dt = 1\<rparr> d
                    (emitterWorld v) [] of
               None \<Rightarrow> (d, flagged)
             | Some (d', ecm', ev') \<Rightarrow> (d', flagged @ [Changed ecm']))
          (idlePlayback, [])
          [(True, 1), (True, 2), (False, 3), (False, 4), (True, 5)])
     = [[], [], [(2, ParticleEmitterCmdT, OneTimeChange)], [],
        [(2, ParticleEmitterCmdT, OneTimeChange)]]"
proof (intro conjI impI allI)
  fix prev ecm prev' ecm'
  assume "distinct (map fst (emitterCmds cs))"
    and "checkParticleEmitterCmds cs (prev, ecm) = (prev', ecm')"
  from checkParticleEmitterCmds_result[OF this]
  show "prev' = prev ++ map_of (emitterCmds cs)"
    and "ecm' = ecm\<lparr>Changed := Changed ecm @
                    map (\<lambda>(e, v). (e, ParticleEmitterCmdT, OneTimeChange))
                      (filter (\<lambda>(e, v). \<exists>p. prev e = Some p \<and> p \<noteq> v) (emitterCmds cs))\<rparr>"
    by simp_all
next
  show "snd (foldl
          (\<lambda>(d, flagged) (v, t).
             case Update (exampleEnv [] (exampleLog [] 100)) \<lparr>simTime = t, dt = 1\<rparr> d
                    (emitterWorld v) [] of
               None \<Rightarrow> (d, flagged)
             | Some (d', ecm', ev') \<Rightarrow> (d', flagged @ [Changed ecm']))
          (idlePlayback, [])
          [(True, 1), (True, 2), (False, 3), (False, 4), (True, 5)])
     = [[], [], [(2, ParticleEmitterCmdT, OneTimeChange)], [],
        [(2, ParticleEmitterCmdT, OneTimeChange)]]"
    by (simp add: Update_def seekWindow_def idlePlayback_def emitterWorld_def
          newLogPlaybackPrivate_def exampleLog_def SetChanged_def Let_def)
qed

text \<open>
  The check on the emitter world with the command false: marked when true is stored, not
  marked when false is stored or nothing is.
\<close>

theorem particle_emitter_change_is_edge_triggered_witness:
  "distinct (map fst (emitterCmds (Components (emitterWorld False)))) \<and>
   (case checkParticleEmitterCmds (Components (emitterWorld False))
           (Map.empty(2 \<mapsto> True), emitterWorld False) of
      (prev', ecm') \<Rightarrow>
        prev' 2 = Some False \<and> Changed ecm' = [(2, ParticleEmitterCmdT, OneTimeChange)]) \<and>
   (case checkParticleEmitterCmds (Components (emitterWorld False))
           (Map.empty(2 \<mapsto> False), emitterWorld False) of
      (prev', ecm') \<Rightarrow> prev' 2 = Some False \<and> Changed ecm' = []) \<and>
   (case checkParticleEmitterCmds (Components (emitterWorld False))
           (Map.empty, emitterWorld False) of
      (prev', ecm') \<Rightarrow> prev' 2 = Some False \<and> Changed ecm' = [])"
  using particle_emitter_change_is_edge_triggered [of "Components (emitterWorld False)"]
  by (simp add: emitterWorld_def SetChanged_def)

subsection \<open>Start and Configure\<close>

text \<open>
  Claim C7. When an instance has been started, \<^verbatim>\<open>Start\<close> returns true and changes
  neither the instance it is called on, nor the world, nor the flag; \<^verbatim>\<open>Configure\<close> of
  another instance sets the entity creation offset and the paths of that instance only: no
  log is opened, no batch is read, the instance is not marked as started and the flag stays
  set. Whenever \<^verbatim>\<open>Start\<close> marks an instance as started, none was started before and the
  flag is set afterwards.
\<close>

theorem second_start_is_rejected:
  "(started \<longrightarrow>
      Start env d ecm started = (True, d, ecm, started) \<and>
      (\<exists>d'. Configure env playback_path d ecm started
               = (d', ecm\<lparr>EntityCreateOffset := MAX_I64 div 2\<rparr>, started) \<and>
            log d' = log d \<and> batch d' = batch d \<and> instStarted d' = instStarted d)) \<and>
   (\<forall>r d' ecm' started'.
      Start env d ecm started = (r, d', ecm', started') \<and> \<not> instStarted d \<and> instStarted d'
        \<longrightarrow> \<not> started \<and> started')"
proof (intro conjI impI allI)
  assume "started"
  then show "Start env d ecm started = (True, d, ecm, started)"
    by (simp add: Start_def)
next
  assume s: "started"
  show "\<exists>d'. Configure env playback_path d ecm started
               = (d', ecm\<lparr>EntityCreateOffset := MAX_I64 div 2\<rparr>, started) \<and>
            log d' = log d \<and> batch d' = batch d \<and> instStarted d' = instStarted d"
    using s
    by (auto simp: Configure_def ExtractStateAndResources_def Let_def split: prod.splits if_splits)
next
  fix r d' ecm' started'
  assume a: "Start env d ecm started = (r, d', ecm', started') \<and> \<not> instStarted d \<and> instStarted d'"
  then show "\<not> started" by (auto simp: Start_def)
  from a show "started'"
    by (auto simp: Start_def Let_def split: if_splits prod.splits)
qed

text \<open>
  A fresh instance configured on the example log: while another instance is started it
  does not start; when none is, it starts and opens the log.
\<close>

theorem second_start_is_rejected_witness:
  "Start (exampleEnv [''/log/state.tlog''] (exampleLog exampleMessages 2)) newLogPlaybackPrivate
     (emitterWorld True) True
     = (True, newLogPlaybackPrivate, emitterWorld True, True) \<and>
   Configure (exampleEnv [''/log/state.tlog''] (exampleLog exampleMessages 2)) ''/log''
     newLogPlaybackPrivate (emitterWorld True) True
     = (newLogPlaybackPrivate\<lparr>logPath := ''/log''\<rparr>,
        (emitterWorld True)\<lparr>EntityCreateOffset := MAX_I64 div 2\<rparr>, True) \<and>
   log (newLogPlaybackPrivate\<lparr>logPath := ''/log''\<rparr>) = None \<and>
   (case Configure (exampleEnv [''/log/state.tlog''] (exampleLog exampleMessages 2)) ''/log''
           newLogPlaybackPrivate (emitterWorld True) False of
      (d', ecm', started') \<Rightarrow>
        instStarted d' \<and> started' \<and> log d' = Some (exampleLog exampleMessages 2))"
  using second_start_is_rejected
          [of True "exampleEnv [''/log/state.tlog''] (exampleLog exampleMessages 2)"
              newLogPlaybackPrivate "emitterWorld True" "''/log''"]
  by (simp add: Start_def Configure_def exampleEnv_def newLogPlaybackPrivate_def
        startsWithSlash_def emitterWorld_def EntityByComponents_def kNullEntity_def
        ReplaceResourceURIs_def exampleLog_def exampleMessages_def Parse_def Let_def)

subsection \<open>Forward replay: writes to the components\<close>












subsection \<open>The state after the application of diff records\<close>











subsection \<open>The rewriting when every resource is found\<close>


lemma prependedUri_Nil [simp]: "prependedUri env lp [] = []"
  by (simp add: prependedUri_def)







lemma prependedComponent_key [simp]:
  "componentKey (prependedComponent env lp c) = componentKey c"
  by (induction env lp c rule: prependedComponent.induct) (simp_all add: componentKey_def)

lemma prependedComponent_fst [simp]: "fst (prependedComponent env lp c) = fst c"
  using prependedComponent_key[of env lp c] by (simp add: componentKey_def)














end
